theory Spec2Isabelle
  imports Complex_Main "HOL-Library.Word"
begin

text \<open>
  The repository holds three versions of the decoder.  Definitions that differ between
  them carry a suffix:
  \<^item> \<open>_A\<close>: the sequential version, \<^verbatim>\<open>src/index.js\<close> lines 1 to 280, which reads 512-byte
    chunks from \<^verbatim>\<open>chunked(stream)\<close> and decodes fields with \<^verbatim>\<open>decodeString\<close> and
    \<^verbatim>\<open>decodeOctal\<close>;
  \<^item> \<open>_B\<close>: the older sequential version, \<^verbatim>\<open>src/index.js\<close> lines 282 to 555, which
    decodes fields with \<^verbatim>\<open>TextDecoder\<close>; of it the header check and the metadata decoder
    are modelled;
  \<^item> \<open>_S\<close>: the seekable version, which reads from a \<^verbatim>\<open>ReadSeeker\<close>.

  A function that can throw returns \<open>error + result\<close>; the state it had changed before
  it threw is not returned.  \<^verbatim>\<open>await\<close> is sequencing: the decoder never has two
  operations on its source in flight.
\<close>

section \<open>JavaScript values used by the decoder\<close>

text \<open>
  A \<^verbatim>\<open>Uint8Array\<close> is a list of bytes.  A JavaScript number that the decoder
  computes is an integer below \<open>2 ^ 53\<close> or \<^verbatim>\<open>NaN\<close>; it is modelled as
  \<open>int option\<close> with \<open>None\<close> for \<^verbatim>\<open>NaN\<close>.  A JavaScript string is the list
  of its UTF-16 code units.
\<close>

type_synonym byte = "8 word"
type_synonym jsnum = "int option"
type_synonym jsstring = "nat list"

definition js :: "string \<Rightarrow> jsstring" where
  "js s = map of_char s"

text \<open>Arithmetic and comparison on numbers: \<^verbatim>\<open>NaN\<close> is contagious and every
  comparison with it is false, except \<^verbatim>\<open>!==\<close>, which is true.\<close>

definition js_add :: "jsnum \<Rightarrow> jsnum \<Rightarrow> jsnum" where
  "js_add a b = (case a of None \<Rightarrow> None | Some x \<Rightarrow> (case b of None \<Rightarrow> None | Some y \<Rightarrow> Some (x + y)))"

definition js_sub :: "jsnum \<Rightarrow> jsnum \<Rightarrow> jsnum" where
  "js_sub a b = (case a of None \<Rightarrow> None | Some x \<Rightarrow> (case b of None \<Rightarrow> None | Some y \<Rightarrow> Some (x - y)))"

definition js_le :: "jsnum \<Rightarrow> jsnum \<Rightarrow> bool" where
  "js_le a b = (case a of None \<Rightarrow> False | Some x \<Rightarrow> (case b of None \<Rightarrow> False | Some y \<Rightarrow> x \<le> y))"

definition js_strict_eq :: "jsnum \<Rightarrow> jsnum \<Rightarrow> bool" where
  "js_strict_eq a b = (case a of None \<Rightarrow> False | Some x \<Rightarrow> (case b of None \<Rightarrow> False | Some y \<Rightarrow> x = y))"

subsection \<open>\<^verbatim>\<open>parseInt(s, 8)\<close>\<close>

text \<open>
  ECMAScript's \<^verbatim>\<open>parseInt\<close> at radix 8: leading white space is dropped, one sign is
  read, then the longest run of octal digits; no digit gives \<^verbatim>\<open>NaN\<close>.  (Radix 8 strips
  no \<^verbatim>\<open>0x\<close> prefix.  The value is exact for the at most twelve digits of a header
  field; \<open>-0\<close> is \<open>0\<close>.)
\<close>

definition isWhiteSpace :: "nat \<Rightarrow> bool" where
  "isWhiteSpace c = (c \<in> set [0x9, 0xA, 0xB, 0xC, 0xD, 0x20, 0xA0, 0x1680, 0x2028, 0x2029,
       0x202F, 0x205F, 0x3000, 0xFEFF] \<or> (0x2000 \<le> c \<and> c \<le> 0x200A))"

definition isOctalDigit :: "nat \<Rightarrow> bool" where
  "isOctalDigit c = (0x30 \<le> c \<and> c \<le> 0x37)"

definition octalValue :: "nat list \<Rightarrow> int" where
  "octalValue ds = foldl (\<lambda>acc d. 8 * acc + (int d - 0x30)) 0 ds"

definition parseInt8 :: "jsstring \<Rightarrow> jsnum" where
  "parseInt8 inputString =
     (let S = dropWhile isWhiteSpace inputString;
          sign = (if S \<noteq> [] \<and> hd S = 0x2D then - 1 else 1);
          S' = (if S \<noteq> [] \<and> (hd S = 0x2B \<or> hd S = 0x2D) then tl S else S);
          Z = takeWhile isOctalDigit S'
      in if Z = [] then None else Some (sign * octalValue Z))"

subsection \<open>\<^verbatim>\<open>decodeString\<close> and \<^verbatim>\<open>decodeOctal\<close>\<close>

text \<open>The loop of \<^verbatim>\<open>decodeString\<close> appends \<^verbatim>\<open>String.fromCharCode(code)\<close> for
  each byte and breaks at the first zero byte.\<close>

fun decodeString :: "byte list \<Rightarrow> jsstring" where
  "decodeString [] = []"
| "decodeString (code # arr) = (if code = 0 then [] else unat code # decodeString arr)"

text \<open>\<^verbatim>\<open>return res ? parseInt(res, 8) : 0\<close>: the empty string is falsy.\<close>

definition decodeOctal :: "byte list \<Rightarrow> jsnum" where
  "decodeOctal arr = (let res = decodeString arr in if res \<noteq> [] then parseInt8 res else Some 0)"

subsection \<open>\<^verbatim>\<open>TextDecoder\<close> and \<^verbatim>\<open>trim\<close> (the older metadata decoder)\<close>

text \<open>
  The older version of \<^verbatim>\<open>src/index.js\<close> decodes fields with the platform's
  \<^verbatim>\<open>new TextDecoder()\<close>: UTF-8 with replacement of ill-formed sequences by U+FFFD, as
  the Encoding standard's decoder does it.  The arguments of \<open>utf8_decoder\<close> are the
  decoder's code point, the number of continuation bytes still needed and the lower and
  upper boundary of the next continuation byte.
\<close>

function utf8_decoder :: "nat \<Rightarrow> nat \<Rightarrow> nat \<Rightarrow> nat \<Rightarrow> byte list \<Rightarrow> nat list" where
  "utf8_decoder cp needed lo hi [] = (if needed \<noteq> 0 then [0xFFFD] else [])"
| "utf8_decoder cp needed lo hi (b # bs) =
     (let v = unat b in
      if needed = 0 then
        (if v \<le> 0x7F then v # utf8_decoder 0 0 0x80 0xBF bs
         else if 0xC2 \<le> v \<and> v \<le> 0xDF then utf8_decoder (v mod 0x20) 1 0x80 0xBF bs
         else if 0xE0 \<le> v \<and> v \<le> 0xEF then
           utf8_decoder (v mod 0x10) 2 (if v = 0xE0 then 0xA0 else 0x80)
             (if v = 0xED then 0x9F else 0xBF) bs
         else if 0xF0 \<le> v \<and> v \<le> 0xF4 then
           utf8_decoder (v mod 8) 3 (if v = 0xF0 then 0x90 else 0x80)
             (if v = 0xF4 then 0x8F else 0xBF) bs
         else 0xFFFD # utf8_decoder 0 0 0x80 0xBF bs)
      else if \<not> (lo \<le> v \<and> v \<le> hi) then 0xFFFD # utf8_decoder 0 0 0x80 0xBF (b # bs)
      else if needed = 1 then (cp * 0x40 + v mod 0x40) # utf8_decoder 0 0 0x80 0xBF bs
      else utf8_decoder (cp * 0x40 + v mod 0x40) (needed - 1) 0x80 0xBF bs)"
  by pat_completeness auto
termination
  by (relation "measure (\<lambda>(cp, needed, lo, hi, bs). 2 * length bs + (if needed = 0 then 0 else 1))")
    auto

text \<open>A code point above U+FFFF is two UTF-16 code units.\<close>

definition utf16 :: "nat \<Rightarrow> nat list" where
  "utf16 cp = (if cp < 0x10000 then [cp]
     else [0xD800 + (cp - 0x10000) div 0x400, 0xDC00 + (cp - 0x10000) mod 0x400])"

text \<open>\<^verbatim>\<open>decoder.decode(arr)\<close>: a leading byte order mark is dropped (\<^verbatim>\<open>ignoreBOM\<close> is
  false by default).\<close>

definition decode :: "byte list \<Rightarrow> jsstring" where
  "decode arr = concat (map utf16 (utf8_decoder 0 0 0x80 0xBF
     (if take 3 arr = [0xEF, 0xBB, 0xBF] then drop 3 arr else arr)))"

text \<open>\<^verbatim>\<open>trim\<close> returns the bytes before the first zero byte.\<close>

fun trim :: "byte list \<Rightarrow> byte list" where
  "trim [] = []"
| "trim (c # arr) = (if c = 0 then [] else c # trim arr)"

section \<open>The header block\<close>

datatype label = Name | Mode | Uid | Gid | Size | Mtime | Checksum | Type | LinkName | Ustar
  | Owner | Group | MajorNumber | MinorNumber | Prefix

text \<open>\<^verbatim>\<open>USTAR_FIELDS\<close> of the two sequential versions (\<^verbatim>\<open>src/index.js\<close>) and of the
  seekable version, which gives the checksum and the magic no label.\<close>

definition RECORD_SIZE :: int where
  "RECORD_SIZE = 512"

definition INITIAL_CHECKSUM :: int where
  "INITIAL_CHECKSUM = 8 * 32"

definition USTAR_FIELDS_A :: "(label option \<times> nat) list" where
  "USTAR_FIELDS_A =
    [(Some Name, 100), (Some Mode, 8), (Some Uid, 8), (Some Gid, 8), (Some Size, 12),
     (Some Mtime, 12), (Some Checksum, 8), (Some Type, 1), (Some LinkName, 100),
     (Some Ustar, 8), (Some Owner, 32), (Some Group, 32), (Some MajorNumber, 8),
     (Some MinorNumber, 8), (Some Prefix, 155), (None, 12)]"

definition USTAR_FIELDS_S :: "(label option \<times> nat) list" where
  "USTAR_FIELDS_S =
    [(Some Name, 100), (Some Mode, 8), (Some Uid, 8), (Some Gid, 8), (Some Size, 12),
     (Some Mtime, 12), (None, 8), (Some Type, 1), (Some LinkName, 100),
     (None, 8), (Some Owner, 32), (Some Group, 32), (Some MajorNumber, 8),
     (Some MinorNumber, 8), (Some Prefix, 155), (None, 12)]"

definition FILE_TYPES_table :: "(int \<times> jsstring) list" where
  "FILE_TYPES_table =
    [(0, js ''file''), (1, js ''link''), (2, js ''symlink''), (3, js ''character-device''),
     (4, js ''block-device''), (5, js ''directory''), (6, js ''fifo''),
     (7, js ''contiguous-file'')]"

text \<open>\<^verbatim>\<open>FILE_TYPES[n]\<close>: a key the object does not have, \<^verbatim>\<open>NaN\<close> included, gives
  \<^verbatim>\<open>undefined\<close>, here \<open>None\<close>.\<close>

definition FILE_TYPES :: "jsnum \<Rightarrow> jsstring option" where
  "FILE_TYPES n = (case n of None \<Rightarrow> None | Some k \<Rightarrow> map_of FILE_TYPES_table k)"

text \<open>\<^verbatim>\<open>block.subarray(begin, end)\<close> for \<open>0 \<le> begin \<le> end\<close>; both ends are clamped
  to the length of the array.\<close>

definition subarray :: "byte list \<Rightarrow> nat \<Rightarrow> nat \<Rightarrow> byte list" where
  "subarray block b e = take (e - b) (drop b block)"

text \<open>A header object maps a property key to its bytes; the key \<open>None\<close> is the property
  \<^verbatim>\<open>"null"\<close> that the sequential versions write for the unlabelled field.\<close>

type_synonym header = "label option \<rightharpoonup> byte list"

fun parseHeader_loop_A :: "byte list \<Rightarrow> (label option \<times> nat) list \<Rightarrow> nat \<Rightarrow> header \<Rightarrow> header" where
  "parseHeader_loop_A block [] offset header = header"
| "parseHeader_loop_A block ((l, len) # fields) offset header =
     parseHeader_loop_A block fields (offset + len)
       (header(l \<mapsto> subarray block offset (offset + len)))"

definition parseHeader_A :: "byte list \<Rightarrow> header" where
  "parseHeader_A block = parseHeader_loop_A block USTAR_FIELDS_A 0 Map.empty"

fun parseHeader_loop_S :: "byte list \<Rightarrow> (label option \<times> nat) list \<Rightarrow> nat \<Rightarrow> header \<Rightarrow> header" where
  "parseHeader_loop_S block [] offset header = header"
| "parseHeader_loop_S block ((l, len) # fields) offset header =
     parseHeader_loop_S block fields (offset + len)
       (if l \<noteq> None then header(l \<mapsto> subarray block offset (offset + len)) else header)"

definition parseHeader_S :: "byte list \<Rightarrow> header" where
  "parseHeader_S block = parseHeader_loop_S block USTAR_FIELDS_S 0 Map.empty"

text \<open>\<^verbatim>\<open>_getChecksum\<close>, the same in every version.  Reading a typed array past its end
  gives \<^verbatim>\<open>undefined\<close>, and adding it gives \<^verbatim>\<open>NaN\<close>.\<close>

definition at_index :: "byte list \<Rightarrow> nat \<Rightarrow> jsnum" where
  "at_index block i = (if i < length block then Some (int (unat (block ! i))) else None)"

definition getChecksum :: "byte list \<Rightarrow> jsnum" where
  "getChecksum block =
     fold (\<lambda>i sum. if 148 \<le> i \<and> i < 156 then sum else js_add sum (at_index block i))
       [0..<512] (Some INITIAL_CHECKSUM)"

text \<open>\<^verbatim>\<open>s.indexOf(t)\<close>: the first position at which \<open>t\<close> occurs in \<open>s\<close>, or \<open>-1\<close>.\<close>

fun indexOf_from :: "int \<Rightarrow> jsstring \<Rightarrow> jsstring \<Rightarrow> int" where
  "indexOf_from i [] t = (if t = [] then i else - 1)"
| "indexOf_from i (c # s) t =
     (if take (length t) (c # s) = t then i else indexOf_from (i + 1) s t)"

definition indexOf :: "jsstring \<Rightarrow> jsstring \<Rightarrow> int" where
  "indexOf s t = indexOf_from 0 s t"

section \<open>Metadata\<close>

record metadata =
  name :: jsstring
  mode :: jsnum
  uid :: jsnum
  gid :: jsnum
  size_e :: jsnum
  mtime :: jsnum
  type_e :: "jsstring option"
  linkName :: jsstring
  owner :: jsstring
  group :: jsstring
  majorNumber :: jsnum
  minorNumber :: jsnum

datatype error =
    ChecksumError
  | UnsupportedFormat jsstring
  | ReferenceError string
  | TypeError string

text \<open>The labels \<^verbatim>\<open>_parseMetadata\<close> reads.  A header without one of them would make
  \<^verbatim>\<open>decodeString(undefined)\<close> throw a \<^verbatim>\<open>TypeError\<close>.\<close>

definition metadata_labels :: "label list" where
  "metadata_labels = [Prefix, Name, Mode, Uid, Gid, Size, Mtime, Type, LinkName, Owner, Group,
     MajorNumber, MinorNumber]"

definition field :: "header \<Rightarrow> label \<Rightarrow> byte list" where
  "field header l = (case header (Some l) of Some arr \<Rightarrow> arr | None \<Rightarrow> [])"

text \<open>\<^verbatim>\<open>_parseMetadata\<close> of the newer sequential version and of the seekable version
  (the same text in both, but for \<^verbatim>\<open>entrySize\<close>, which the seekable version sets here and
  the sequential one in the constructor).\<close>

definition parseMetadata :: "header \<Rightarrow> error + metadata" where
  "parseMetadata header =
     (if \<not> list_all (\<lambda>l. header (Some l) \<noteq> None) metadata_labels
      then Inl (TypeError ''Cannot read properties of undefined'')
      else
        let p_prefix = decodeString (field header Prefix);
            p_name = decodeString (field header Name)
        in Inr \<lparr>
          name = (if length p_prefix > 0 then p_prefix @ js ''/'' @ p_name else p_name),
          mode = decodeOctal (field header Mode),
          uid = decodeOctal (field header Uid),
          gid = decodeOctal (field header Gid),
          size_e = decodeOctal (field header Size),
          mtime = decodeOctal (field header Mtime),
          type_e = FILE_TYPES (decodeOctal (field header Type)),
          linkName = decodeString (field header LinkName),
          owner = decodeString (field header Owner),
          group = decodeString (field header Group),
          majorNumber = decodeOctal (field header MajorNumber),
          minorNumber = decodeOctal (field header MinorNumber) \<rparr>)"

text \<open>\<^verbatim>\<open>_parseMetadata\<close> of the older sequential version: \<^verbatim>\<open>TextDecoder\<close> and
  \<^verbatim>\<open>trim\<close> for the strings, \<^verbatim>\<open>parseInt(decoder.decode(field), 8)\<close> for the numbers,
  \<^verbatim>\<open>null\<close> (here \<open>None\<close>) for an empty owner or group.\<close>

record metadata_B =
  name_B :: jsstring
  mode_B :: jsnum
  uid_B :: jsnum
  gid_B :: jsnum
  size_B :: jsnum
  mtime_B :: jsnum
  type_B :: "jsstring option"
  linkName_B :: jsstring
  owner_B :: "jsstring option"
  group_B :: "jsstring option"
  majorNumber_B :: jsnum
  minorNumber_B :: jsnum

definition parseMetadata_B :: "header \<Rightarrow> error + metadata_B" where
  "parseMetadata_B header =
     (if \<not> list_all (\<lambda>l. header (Some l) \<noteq> None) metadata_labels
      then Inl (TypeError ''Cannot read properties of undefined'')
      else
        let p_prefix = trim (field header Prefix);
            p_owner = trim (field header Owner);
            p_group = trim (field header Group);
            p_name = decode (trim (field header Name))
        in Inr \<lparr>
          name_B = (if length p_prefix > 0 then decode p_prefix @ js ''/'' @ p_name else p_name),
          mode_B = parseInt8 (decode (field header Mode)),
          uid_B = parseInt8 (decode (field header Uid)),
          gid_B = parseInt8 (decode (field header Gid)),
          size_B = parseInt8 (decode (field header Size)),
          mtime_B = parseInt8 (decode (field header Mtime)),
          type_B = FILE_TYPES (parseInt8 (decode (field header Type))),
          linkName_B = decode (trim (field header LinkName)),
          owner_B = (if length p_owner > 0 then Some (decode p_owner) else None),
          group_B = (if length p_group > 0 then Some (decode p_group) else None),
          majorNumber_B = parseInt8 (decode (field header MajorNumber)),
          minorNumber_B = parseInt8 (decode (field header MinorNumber)) \<rparr>)"

text \<open>\<^verbatim>\<open>Math.ceil(size / RECORD_SIZE) * RECORD_SIZE\<close>.  Dividing by 512 is exact in
  floating point, so the ceiling is the integer one.\<close>

definition ceil_to_record :: "jsnum \<Rightarrow> jsnum" where
  "ceil_to_record n = (case n of None \<Rightarrow> None
     | Some k \<Rightarrow> Some (- ((- k) div RECORD_SIZE) * RECORD_SIZE))"

section \<open>The sequential version (\<^verbatim>\<open>src/index.js\<close>)\<close>

text \<open>
  Modelled from the spec: the chunk source \<^verbatim>\<open>chunked(stream)\<close> of the package
  \<^verbatim>\<open>@intrnl/chunked-uint8-iterator\<close>, which is not part of the repository.  It is the
  list of the chunks still to come; \<^verbatim>\<open>next()\<close> gives the first one, or \<^verbatim>\<open>null\<close> at the
  end.
\<close>

type_synonym chunk_reader = "byte list list"

definition reader_next :: "chunk_reader \<Rightarrow> byte list option \<times> chunk_reader" where
  "reader_next r = (case r of [] \<Rightarrow> (None, []) | values # rest \<Rightarrow> (Some values, rest))"

record tar_entry_A = metadata +
  entrySize_A :: jsnum
  p_consumed :: bool
  p_read_A :: jsnum

definition new_TarEntry_A :: "header \<Rightarrow> error + tar_entry_A" where
  "new_TarEntry_A header = (case parseMetadata header of
       Inl e \<Rightarrow> Inl e
     | Inr m \<Rightarrow> Inr (metadata.extend m
         (tar_entry_A.fields (ceil_to_record (size_e m)) False (Some 0))))"

datatype iter_result = Done | Yield "byte list"

text \<open>\<^verbatim>\<open>next()\<close> of the iterator of an entry.  At the end of the source
  \<^verbatim>\<open>values.byteLength\<close> reads a property of \<^verbatim>\<open>null\<close> and throws, before
  \<^verbatim>\<open>_consumed\<close> is set.\<close>

definition next_A :: "tar_entry_A \<Rightarrow> chunk_reader \<Rightarrow> error + (iter_result \<times> tar_entry_A \<times> chunk_reader)" where
  "next_A entry r =
     (let entryBytesLeft = js_sub (entrySize_A entry) (p_read_A entry);
          bytesLeft = js_sub (size_e entry) (p_read_A entry)
      in if js_le entryBytesLeft (Some 0) then Inr (Done, entry\<lparr>p_consumed := True\<rparr>, r)
         else (case reader_next r of
             (None, r') \<Rightarrow> Inl (TypeError ''Cannot read properties of null'')
           | (Some values, r') \<Rightarrow>
               (let len = int (length values) in
                if js_le bytesLeft (Some 0) then Inr (Done, entry, r')
                else
                  let entry' = entry\<lparr>p_read_A := js_add (p_read_A entry) (Some len)\<rparr>;
                      buf = (case bytesLeft of
                               None \<Rightarrow> values
                             | Some left \<Rightarrow>
                                 if left < len then subarray values 0 (nat left) else values)
                  in Inr (Yield buf, entry', r'))))"

text \<open>\<^verbatim>\<open>discard\<close>: \<^verbatim>\<open>while (!this._consumed) await iterator.next()\<close>.  Every turn of
  the loop sets the flag, throws or takes a chunk from the source.\<close>

function discard_A :: "tar_entry_A \<Rightarrow> chunk_reader \<Rightarrow> error + (tar_entry_A \<times> chunk_reader)" where
  "discard_A entry r =
     (if p_consumed entry then Inr (entry, r)
      else (case next_A entry r of
          Inl e \<Rightarrow> Inl e
        | Inr (res, entry', r') \<Rightarrow> discard_A entry' r'))"
  by pat_completeness auto
termination
  by (relation "measure (\<lambda>(entry, r). 2 * length r + (if p_consumed entry then 0 else 1))")
    (auto simp: next_A_def reader_next_def Let_def split: if_splits list.splits)

declare discard_A.simps [simp del]

record untar_A =
  entry_A :: "tar_entry_A option"
  reader_A :: chunk_reader

definition new_Untar_A :: "chunk_reader \<Rightarrow> untar_A" where
  "new_Untar_A r = \<lparr> entry_A = None, reader_A = r \<rparr>"

definition getHeader_A :: "chunk_reader \<Rightarrow> error + (header option \<times> chunk_reader)" where
  "getHeader_A r =
     (case reader_next r of
        (None, r') \<Rightarrow> Inr (None, r')
      | (Some block, r') \<Rightarrow>
          (let header = parseHeader_A block;
               blocksum = getChecksum block;
               magic = decodeString (field header Ustar);
               checksum = decodeString (field header Checksum)
           in if \<not> js_strict_eq (parseInt8 checksum) blocksum then
                (if js_strict_eq blocksum (Some INITIAL_CHECKSUM) then Inr (None, r')
                 else Inl ChecksumError)
              else if indexOf magic (js ''ustar'') \<noteq> 0 then Inl (UnsupportedFormat magic)
              else Inr (Some header, r')))"

text \<open>\<^verbatim>\<open>_getHeader\<close> of the older sequential version decodes the magic and the
  checksum with \<^verbatim>\<open>decoder.decode\<close>.\<close>

definition getHeader_B :: "chunk_reader \<Rightarrow> error + (header option \<times> chunk_reader)" where
  "getHeader_B r =
     (case reader_next r of
        (None, r') \<Rightarrow> Inr (None, r')
      | (Some block, r') \<Rightarrow>
          (let header = parseHeader_A block;
               blocksum = getChecksum block;
               magic = decode (field header Ustar);
               checksum = decode (field header Checksum)
           in if \<not> js_strict_eq (parseInt8 checksum) blocksum then
                (if js_strict_eq blocksum (Some INITIAL_CHECKSUM) then Inr (None, r')
                 else Inl ChecksumError)
              else if indexOf magic (js ''ustar'') \<noteq> 0 then Inl (UnsupportedFormat magic)
              else Inr (Some header, r')))"

definition extract_A :: "untar_A \<Rightarrow> error + (tar_entry_A option \<times> untar_A)" where
  "extract_A this =
     (case (case entry_A this of
              Some entry \<Rightarrow>
                (if \<not> p_consumed entry then
                   (case discard_A entry (reader_A this) of
                      Inl e \<Rightarrow> Inl e
                    | Inr (entry', r') \<Rightarrow> Inr \<lparr> entry_A = Some entry', reader_A = r' \<rparr>)
                 else Inr this)
            | None \<Rightarrow> Inr this) of
        Inl e \<Rightarrow> Inl e
      | Inr this1 \<Rightarrow>
          (case getHeader_A (reader_A this1) of
             Inl e \<Rightarrow> Inl e
           | Inr (None, r') \<Rightarrow> Inr (None, this1\<lparr>reader_A := r'\<rparr>)
           | Inr (Some header, r') \<Rightarrow>
               (case new_TarEntry_A header of
                  Inl e \<Rightarrow> Inl e
                | Inr entry \<Rightarrow> Inr (Some entry, \<lparr> entry_A = Some entry, reader_A = r' \<rparr>))))"

section \<open>The seekable version\<close>

text \<open>
  Modelled from the spec: the \<^verbatim>\<open>ReadSeeker\<close> the seekable version is given, of which the
  source has the type only (\<^verbatim>\<open>read(p)\<close> returning a number or \<^verbatim>\<open>null\<close>, and
  \<^verbatim>\<open>seek(offset, whence)\<close>).  It is a byte sequence with a cursor.  \<^verbatim>\<open>read(p)\<close> at
  or past the end returns \<^verbatim>\<open>null\<close>; otherwise it writes the bytes at the cursor to the
  front of \<open>p\<close> and returns their number, which is at most the length of \<open>p\<close>, at most
  what is left, and at most the next entry of \<open>grants\<close>: that list says how many bytes each
  coming call is willing to deliver, so that a source that reads short is covered (the
  empty list restricts nothing).  \<^verbatim>\<open>seek(offset, 1)\<close> moves the cursor by \<open>offset\<close>;
  an offset \<^verbatim>\<open>NaN\<close> leaves it where it is.
\<close>

record read_seeker =
  content :: "byte list"
  cursor :: nat
  grants :: "nat list"

definition rs_read :: "read_seeker \<Rightarrow> byte list \<Rightarrow> jsnum \<times> byte list \<times> read_seeker" where
  "rs_read r p =
     (if length (content r) \<le> cursor r then (None, p, r)
      else
        let k = (case grants r of [] \<Rightarrow> length p | g # gs \<Rightarrow> min g (length p));
            data = take k (drop (cursor r) (content r))
        in (Some (int (length data)), data @ drop (length data) p,
            r\<lparr>cursor := cursor r + length data, grants := tl (grants r)\<rparr>))"

definition SEEK_MODE_CURRENT :: int where
  "SEEK_MODE_CURRENT = 1"

definition rs_seek :: "read_seeker \<Rightarrow> jsnum \<Rightarrow> int \<Rightarrow> read_seeker" where
  "rs_seek r offset whence = (case offset of None \<Rightarrow> r
     | Some k \<Rightarrow> r\<lparr>cursor := nat (int (cursor r) + k)\<rparr>)"

record tar_entry_S = metadata +
  entrySize_S :: jsnum
  p_read_S :: jsnum

definition new_TarEntry_S :: "header \<Rightarrow> error + tar_entry_S" where
  "new_TarEntry_S header = (case parseMetadata header of
       Inl e \<Rightarrow> Inl e
     | Inr m \<Rightarrow> Inr (metadata.extend m
         (tar_entry_S.fields (ceil_to_record (size_e m)) (Some 0))))"

text \<open>\<^verbatim>\<open>discard\<close> seeks and assigns nothing; the entry is returned as it was given.\<close>

definition discard_S :: "tar_entry_S \<Rightarrow> read_seeker \<Rightarrow> tar_entry_S \<times> read_seeker" where
  "discard_S entry r =
     (let remaining = js_sub (entrySize_S entry) (p_read_S entry)
      in if js_le remaining (Some 0) then (entry, r)
         else (entry, rs_seek r remaining SEEK_MODE_CURRENT))"

text \<open>\<^verbatim>\<open>new Uint8Array(n)\<close> for a number \<open>n\<close> that is \<^verbatim>\<open>NaN\<close> or not negative.\<close>

definition new_Uint8Array :: "jsnum \<Rightarrow> byte list" where
  "new_Uint8Array n = (case n of None \<Rightarrow> [] | Some k \<Rightarrow> replicate (nat k) 0)"

text \<open>\<^verbatim>\<open>read(p)\<close> returns the number the source returned (or \<^verbatim>\<open>null\<close>), the buffer
  \<open>p\<close> as it is afterwards, the entry and the source.\<close>

definition read_S :: "tar_entry_S \<Rightarrow> read_seeker \<Rightarrow> byte list \<Rightarrow> jsnum \<times> byte list \<times> tar_entry_S \<times> read_seeker" where
  "read_S entry r p =
     (let remaining = js_sub (size_e entry) (p_read_S entry)
      in if js_le remaining (Some 0) then (None, p, entry, r)
         else if js_le (Some (int (length p))) remaining then
           (let entry' = entry\<lparr>p_read_S := js_add (p_read_S entry) (Some (int (length p)))\<rparr>;
                (n, p', r') = rs_read r p
            in (n, p', entry', r'))
         else
           (let entry' = entry\<lparr>p_read_S := js_add (p_read_S entry) remaining\<rparr>;
                block = new_Uint8Array remaining;
                (n, block', r') = rs_read r block
            in (n, block' @ drop (length block') p, entry', r')))"

record untar_S =
  entry_S :: "tar_entry_S option"
  p_reader :: read_seeker
  p_chunk :: "byte list"

definition new_Untar_S :: "read_seeker \<Rightarrow> untar_S" where
  "new_Untar_S r = \<lparr> entry_S = None, p_reader = r, p_chunk = replicate 512 0 \<rparr>"

text \<open>\<^verbatim>\<open>_getHeader\<close> reads into the one buffer \<^verbatim>\<open>this._chunk\<close>.  The message of the
  format error names a variable \<^verbatim>\<open>magic\<close> that this version does not declare, so
  building the message throws a \<^verbatim>\<open>ReferenceError\<close>.\<close>

definition getHeader_S :: "read_seeker \<Rightarrow> byte list \<Rightarrow> error + (header option \<times> read_seeker \<times> byte list)" where
  "getHeader_S r chunk0 =
     (let (read, chunk, r') = rs_read r chunk0
      in if read = None then Inr (None, r', chunk)
         else
           let blocksum = getChecksum chunk
           in if \<not> js_strict_eq (parseInt8 (decodeString (subarray chunk 148 156))) blocksum then
                (if js_strict_eq blocksum (Some INITIAL_CHECKSUM) then Inr (None, r', chunk)
                 else Inl ChecksumError)
              else if indexOf (decodeString (subarray chunk 257 263)) (js ''ustar'') \<noteq> 0
                then Inl (ReferenceError ''magic is not defined'')
              else Inr (Some (parseHeader_S chunk), r', chunk))"

definition extract_S :: "untar_S \<Rightarrow> error + (tar_entry_S option \<times> untar_S)" where
  "extract_S this =
     (let this1 = (case entry_S this of
                     Some entry \<Rightarrow>
                       (let (entry', r') = discard_S entry (p_reader this)
                        in this\<lparr>entry_S := Some entry', p_reader := r'\<rparr>)
                   | None \<Rightarrow> this)
      in case getHeader_S (p_reader this1) (p_chunk this1) of
           Inl e \<Rightarrow> Inl e
         | Inr (None, r', chunk) \<Rightarrow> Inr (None, this1\<lparr>p_reader := r', p_chunk := chunk\<rparr>)
         | Inr (Some header, r', chunk) \<Rightarrow>
             (case new_TarEntry_S header of
                Inl e \<Rightarrow> Inl e
              | Inr entry \<Rightarrow>
                  Inr (Some entry, \<lparr> entry_S = Some entry, p_reader = r', p_chunk = chunk \<rparr>)))"

section \<open>Callers\<close>




text \<open>A number of calls of \<^verbatim>\<open>extract\<close> in a row, with their results.\<close>

fun extracts_A :: "nat \<Rightarrow> untar_A \<Rightarrow> error + (tar_entry_A option list \<times> untar_A)" where
  "extracts_A 0 this = Inr ([], this)"
| "extracts_A (Suc n) this =
     (case extract_A this of
        Inl e \<Rightarrow> Inl e
      | Inr (x, this') \<Rightarrow>
          (case extracts_A n this' of
             Inl e \<Rightarrow> Inl e
           | Inr (xs, this'') \<Rightarrow> Inr (x # xs, this'')))"

fun extracts_S :: "nat \<Rightarrow> untar_S \<Rightarrow> error + (tar_entry_S option list \<times> untar_S)" where
  "extracts_S 0 this = Inr ([], this)"
| "extracts_S (Suc n) this =
     (case extract_S this of
        Inl e \<Rightarrow> Inl e
      | Inr (x, this') \<Rightarrow>
          (case extracts_S n this' of
             Inl e \<Rightarrow> Inl e
           | Inr (xs, this'') \<Rightarrow> Inr (x # xs, this'')))"

text \<open>The blocks on which the seekable \<^verbatim>\<open>_getHeader\<close> returns \<^verbatim>\<open>null\<close>: the checksum
  field does not match the block sum, and the block sum is that of the zero block.\<close>

definition null_block :: "byte list \<Rightarrow> bool" where
  "null_block chunk =
     (\<not> js_strict_eq (parseInt8 (decodeString (subarray chunk 148 156))) (getChecksum chunk)
      \<and> js_strict_eq (getChecksum chunk) (Some INITIAL_CHECKSUM))"

section \<open>Example archives\<close>

text \<open>Header blocks to run the decoder on: a member \<^verbatim>\<open>a\<close> with mode 644, the given
  size field, checksum field, type flag and magic, and all other fields empty.\<close>

definition ascii :: "string \<Rightarrow> byte list" where
  "ascii s = map of_char s"

definition ustar_block :: "byte list \<Rightarrow> byte list \<Rightarrow> byte \<Rightarrow> byte list \<Rightarrow> byte list" where
  "ustar_block size_field checksum_field type_flag magic =
     ascii ''a'' @ replicate 99 0 @ ascii ''0000644'' @ [0] @ ascii ''0000000'' @ [0]
     @ ascii ''0000000'' @ [0] @ size_field @ ascii ''00000000000'' @ [0] @ checksum_field
     @ [type_flag] @ replicate 100 0 @ magic @ replicate 247 0"

text \<open>A regular file of 100 bytes, with its checksum \<open>3143 = 0o6107\<close>.\<close>

definition file_block :: "byte list" where
  "file_block = ustar_block (ascii ''00000000144'' @ [0]) (ascii ''006107'' @ [0, 0x20]) 0x30
     (ascii ''ustar'' @ [0] @ ascii ''00'')"

text \<open>The same member with a magic that is not \<^verbatim>\<open>ustar\<close> (checksum
  \<open>3051 = 0o5753\<close>), and with the type flags \<^verbatim>\<open>8\<close> and \<^verbatim>\<open>9\<close> (checksums
  \<open>3151 = 0o6117\<close> and \<open>3152 = 0o6120\<close>).\<close>

definition posix_block :: "byte list" where
  "posix_block = ustar_block (ascii ''00000000144'' @ [0]) (ascii ''005753'' @ [0, 0x20]) 0x30
     (ascii ''posix'' @ [0, 0, 0])"

definition type8_block :: "byte list" where
  "type8_block = ustar_block (ascii ''00000000144'' @ [0]) (ascii ''006117'' @ [0, 0x20]) 0x38
     (ascii ''ustar'' @ [0] @ ascii ''00'')"

definition type9_block :: "byte list" where
  "type9_block = ustar_block (ascii ''00000000144'' @ [0]) (ascii ''006120'' @ [0, 0x20]) 0x39
     (ascii ''ustar'' @ [0] @ ascii ''00'')"

text \<open>The entries that the two versions make of \<open>file_block\<close>.\<close>

definition file_metadata :: metadata where
  "file_metadata = \<lparr> name = js ''a'', mode = Some 420, uid = Some 0, gid = Some 0,
     size_e = Some 100, mtime = Some 0, type_e = Some (js ''file''), linkName = [],
     owner = [], group = [], majorNumber = Some 0, minorNumber = Some 0 \<rparr>"

definition file_entry_S :: tar_entry_S where
  "file_entry_S = metadata.extend file_metadata (tar_entry_S.fields (Some 512) (Some 0))"

definition file_entry_A :: tar_entry_A where
  "file_entry_A = metadata.extend file_metadata (tar_entry_A.fields (Some 512) False (Some 0))"

text \<open>An archive of two such members, each with a body of 100 bytes \<^verbatim>\<open>x\<close> padded to
  512, and the two zero blocks at the end.\<close>

definition body_block :: "byte list" where
  "body_block = replicate 100 0x78 @ replicate 412 0"

definition two_files :: "byte list" where
  "two_files = file_block @ body_block @ file_block @ body_block @ replicate 1024 0"

section \<open>Facts about the helpers\<close>

subsection \<open>The block sum\<close>

lemma decodeString_all_NUL: "decodeString (replicate n 0) = []"
  by (cases n) simp_all

lemma fold_checksum_range:
  "a + n \<le> length block \<Longrightarrow> (a + n \<le> 148 \<or> 156 \<le> a) \<Longrightarrow>
   fold (\<lambda>i sum. if 148 \<le> i \<and> i < 156 then sum else js_add sum (at_index block i))
     [a..<a + n] (Some s) = Some (s + int (sum_list (map unat (take n (drop a block)))))"
proof (induction n arbitrary: s)
  case 0
  then show ?case by simp
next
  case (Suc n)
  have nth: "take (Suc n) (drop a block) = take n (drop a block) @ [block ! (a + n)]"
    using Suc.prems(1) by (simp add: take_Suc_conv_app_nth)
  have out: "\<not> (148 \<le> a + n \<and> a + n < 156)" using Suc.prems(2) by arith
  have ih: "fold (\<lambda>i sum. if 148 \<le> i \<and> i < 156 then sum else js_add sum (at_index block i))
     [a..<a + n] (Some s) = Some (s + int (sum_list (map unat (take n (drop a block)))))"
  proof (rule Suc.IH)
    show "a + n \<le> length block" using Suc.prems(1) by arith
    show "a + n \<le> 148 \<or> 156 \<le> a" using Suc.prems(2) by arith
  qed
  have idx: "at_index block (a + n) = Some (int (unat (block ! (a + n))))"
    using Suc.prems(1) by (simp add: at_index_def)
  have step: "(if 148 \<le> a + n \<and> a + n < 156 then x else js_add x (at_index block (a + n)))
      = js_add x (Some (int (unat (block ! (a + n)))))" for x
    using out idx by auto
  show ?case
    by (simp add: nth ih step js_add_def)
qed

lemma fold_checksum_skip:
  "fold (\<lambda>i sum. if 148 \<le> i \<and> i < 156 then sum else js_add sum (at_index block i))
     [148..<156] s = s"
  by (simp add: upt_rec_numeral)

lemma getChecksum_eq:
  assumes "512 \<le> length block"
  shows "getChecksum block = Some (INITIAL_CHECKSUM + int (sum_list (map unat (take 148 block)))
           + int (sum_list (map unat (take 356 (drop 156 block)))))"
proof -
  have split: "[0..<512] = [0..<0 + 148] @ [148..<156] @ [156..<156 + 356]"
    using upt_add_eq_append [of 0 148 364] upt_add_eq_append [of 148 156 356] by simp
  have a: "fold (\<lambda>i sum. if 148 \<le> i \<and> i < 156 then sum else js_add sum (at_index block i))
     [0..<0 + 148] (Some INITIAL_CHECKSUM) = Some (INITIAL_CHECKSUM + int (sum_list (map unat (take 148 (drop 0 block)))))"
    by (rule fold_checksum_range) (use assms in simp_all)
  have b: "\<And>s. fold (\<lambda>i sum. if 148 \<le> i \<and> i < 156 then sum else js_add sum (at_index block i))
     [156..<156 + 356] (Some s) = Some (s + int (sum_list (map unat (take 356 (drop 156 block)))))"
    by (rule fold_checksum_range) (use assms in simp_all)
  show ?thesis
    unfolding getChecksum_def split fold_append comp_def a fold_checksum_skip b
    by simp
qed

lemma getChecksum_short:
  assumes "length block < 512"
  shows "getChecksum block = None"
proof -
  have split: "[0..<512] = [0..<511] @ [511]"
    using upt_Suc_append [of 0 511] by simp
  have "at_index block 511 = None" using assms by (simp add: at_index_def)
  then show ?thesis
    unfolding getChecksum_def split fold_append comp_def
    by (simp add: js_add_def split: option.splits)
qed

subsection \<open>Fields of a header\<close>

lemma parseHeader_A_fields:
  "parseHeader_A block (Some Name) = Some (subarray block 0 100)"
  "parseHeader_A block (Some Mode) = Some (subarray block 100 108)"
  "parseHeader_A block (Some Uid) = Some (subarray block 108 116)"
  "parseHeader_A block (Some Gid) = Some (subarray block 116 124)"
  "parseHeader_A block (Some Size) = Some (subarray block 124 136)"
  "parseHeader_A block (Some Mtime) = Some (subarray block 136 148)"
  "parseHeader_A block (Some Checksum) = Some (subarray block 148 156)"
  "parseHeader_A block (Some Type) = Some (subarray block 156 157)"
  "parseHeader_A block (Some LinkName) = Some (subarray block 157 257)"
  "parseHeader_A block (Some Ustar) = Some (subarray block 257 265)"
  "parseHeader_A block (Some Owner) = Some (subarray block 265 297)"
  "parseHeader_A block (Some Group) = Some (subarray block 297 329)"
  "parseHeader_A block (Some MajorNumber) = Some (subarray block 329 337)"
  "parseHeader_A block (Some MinorNumber) = Some (subarray block 337 345)"
  "parseHeader_A block (Some Prefix) = Some (subarray block 345 500)"
  by (simp_all add: parseHeader_A_def USTAR_FIELDS_A_def)

lemma parseHeader_S_fields:
  "parseHeader_S block (Some Name) = Some (subarray block 0 100)"
  "parseHeader_S block (Some Mode) = Some (subarray block 100 108)"
  "parseHeader_S block (Some Uid) = Some (subarray block 108 116)"
  "parseHeader_S block (Some Gid) = Some (subarray block 116 124)"
  "parseHeader_S block (Some Size) = Some (subarray block 124 136)"
  "parseHeader_S block (Some Mtime) = Some (subarray block 136 148)"
  "parseHeader_S block (Some Type) = Some (subarray block 156 157)"
  "parseHeader_S block (Some LinkName) = Some (subarray block 157 257)"
  "parseHeader_S block (Some Owner) = Some (subarray block 265 297)"
  "parseHeader_S block (Some Group) = Some (subarray block 297 329)"
  "parseHeader_S block (Some MajorNumber) = Some (subarray block 329 337)"
  "parseHeader_S block (Some MinorNumber) = Some (subarray block 337 345)"
  "parseHeader_S block (Some Prefix) = Some (subarray block 345 500)"
  by (simp_all add: parseHeader_S_def USTAR_FIELDS_S_def)

lemma parseInt8_empty: "parseInt8 [] = None"
  by (simp add: parseInt8_def)

lemma getChecksum_zero_block: "getChecksum (replicate 512 0) = Some INITIAL_CHECKSUM"
  by (simp add: getChecksum_eq sum_list_replicate)

lemma subarray_replicate: "subarray (replicate n x) a b = replicate (min (b - a) (n - a)) x"
  by (simp add: subarray_def)

lemma getHeader_A_zero_block: "getHeader_A (replicate 512 0 # rest) = Inr (None, rest)"
  by (simp add: getHeader_A_def reader_next_def field_def parseHeader_A_fields
      subarray_replicate decodeString_all_NUL parseInt8_empty getChecksum_zero_block
      js_strict_eq_def)

lemma rs_read_zeros:
  "rs_read \<lparr>content = replicate 512 0, cursor = 0, grants = gs\<rparr> (replicate 512 0)
     = (Some (int (case gs of [] \<Rightarrow> 512 | g # _ \<Rightarrow> min g 512)), replicate 512 0,
        \<lparr>content = replicate 512 0, cursor = (case gs of [] \<Rightarrow> 512 | g # _ \<Rightarrow> min g 512),
         grants = tl gs\<rparr>)"
  by (cases gs) (simp_all add: rs_read_def min_def flip: replicate_add)

subsection \<open>The example blocks\<close>

lemmas example_blocks = file_block_def posix_block_def type8_block_def type9_block_def
  ustar_block_def ascii_def

lemmas parseInt8_eval = parseInt8_def isWhiteSpace_def isOctalDigit_def octalValue_def

lemma length_example_blocks:
  "length file_block = 512" "length posix_block = 512"
  "length type8_block = 512" "length type9_block = 512"
  by (simp_all add: example_blocks)

lemma getChecksum_example_blocks:
  "getChecksum file_block = Some 3143" "getChecksum posix_block = Some 3051"
  "getChecksum type8_block = Some 3151" "getChecksum type9_block = Some 3152"
  by (simp_all add: getChecksum_eq length_example_blocks INITIAL_CHECKSUM_def)
     (simp_all add: example_blocks sum_list_replicate)

lemma checksum_field_example_blocks:
  "parseInt8 (decodeString (subarray file_block 148 156)) = Some 3143"
  "parseInt8 (decodeString (subarray posix_block 148 156)) = Some 3051"
  "parseInt8 (decodeString (subarray type8_block 148 156)) = Some 3151"
  "parseInt8 (decodeString (subarray type9_block 148 156)) = Some 3152"
  by (simp_all add: example_blocks subarray_def parseInt8_eval)

lemma indexOf_ustar:
  "indexOf (js ''ustar'') (js ''ustar'') = 0" "indexOf (js ''posix'') (js ''ustar'') = - 1"
  by (simp_all add: indexOf_def js_def)

lemma magic_example_blocks:
  "decodeString (subarray file_block 257 265) = js ''ustar''"
  "decodeString (subarray posix_block 257 265) = js ''posix''"
  "decodeString (subarray type8_block 257 265) = js ''ustar''"
  "decodeString (subarray type9_block 257 265) = js ''ustar''"
  "decodeString (subarray file_block 257 263) = js ''ustar''"
  "decodeString (subarray posix_block 257 263) = js ''posix''"
  "decodeString (subarray type8_block 257 263) = js ''ustar''"
  "decodeString (subarray type9_block 257 263) = js ''ustar''"
  by (simp_all add: example_blocks subarray_def js_def)

text \<open>A source that holds the block at its cursor and fills the request delivers it.\<close>

lemma rs_read_block:
  assumes "length block = 512" "length chunk = 512"
  shows "rs_read \<lparr>content = pre @ block @ post, cursor = length pre, grants = []\<rparr> chunk
    = (Some 512, block, \<lparr>content = pre @ block @ post, cursor = length pre + 512, grants = []\<rparr>)"
  using assms by (simp add: rs_read_def)

lemma getHeader_A_posix: "getHeader_A (posix_block # rest) = Inl (UnsupportedFormat (js ''posix''))"
  by (simp add: getHeader_A_def reader_next_def field_def parseHeader_A_fields
      getChecksum_example_blocks checksum_field_example_blocks magic_example_blocks
      indexOf_ustar js_strict_eq_def)

subsection \<open>Octal fields\<close>

lemma utf8_decoder_ascii:
  "list_all (\<lambda>b. unat b \<le> 0x7F) bs \<Longrightarrow> utf8_decoder 0 0 lo hi bs = map unat bs"
  by (induction bs arbitrary: lo hi) simp_all

lemma decode_ascii:
  assumes "list_all (\<lambda>b. unat b \<le> 0x7F) bs"
  shows "decode bs = map unat bs"
proof -
  have nobom: "take 3 bs \<noteq> [0xEF, 0xBB, 0xBF]"
  proof
    assume "take 3 bs = [0xEF, 0xBB, 0xBF]"
    then have "(0xEF :: byte) \<in> set (take 3 bs)" by simp
    then have "(0xEF :: byte) \<in> set bs" by (rule in_set_takeD)
    with assms show False by (auto simp: list_all_iff)
  qed
  have small: "list_all (\<lambda>c. c < 0x10000) (map unat bs)"
    using assms by (induction bs) auto
  have "concat (map utf16 cs) = cs" if "list_all (\<lambda>c. c < 0x10000) cs" for cs
    using that by (induction cs) (simp_all add: utf16_def)
  from this [OF small] show ?thesis
    by (simp only: decode_def nobom if_False utf8_decoder_ascii [OF assms])
qed

lemma decodeString_no_NUL:
  "list_all (\<lambda>b. b \<noteq> 0) ds \<Longrightarrow> decodeString (ds @ replicate n 0) = map unat ds"
  by (induction ds) (simp_all add: decodeString_all_NUL)

lemma octal_digit_facts:
  "isOctalDigit c \<Longrightarrow> \<not> isWhiteSpace c \<and> c \<noteq> 0x2B \<and> c \<noteq> 0x2D \<and> c \<noteq> 0"
  by (auto simp: isOctalDigit_def isWhiteSpace_def)

lemma parseInt8_digits:
  assumes "cs \<noteq> []" "list_all isOctalDigit cs" "rest = [] \<or> \<not> isOctalDigit (hd rest)"
  shows "parseInt8 (cs @ rest) = Some (octalValue cs)"
proof -
  obtain c cs' where cs: "cs = c # cs'" using assms(1) by (cases cs) auto
  have c: "isOctalDigit c" using assms(2) cs by simp
  have tw: "takeWhile isOctalDigit (cs @ rest) = cs"
  proof (cases rest)
    case Nil
    with assms(2) show ?thesis by (simp add: list_all_iff)
  next
    case (Cons x xs)
    with assms(3) have "\<not> isOctalDigit x" by simp
    with assms(2) Cons show ?thesis
      by (simp add: list_all_iff takeWhile_tail)
  qed
  have dw: "dropWhile isWhiteSpace (cs @ rest) = cs @ rest"
    using octal_digit_facts [OF c] cs by simp
  show ?thesis
    unfolding parseInt8_def dw Let_def
    using tw octal_digit_facts [OF c] cs assms(1) by simp
qed

text \<open>What the claim says of an octal field holds for \<^verbatim>\<open>decodeOctal\<close>: digits up to the
  first NUL are read in base 8, and a field of NULs is 0.\<close>

lemma decodeOctal_digits:
  assumes "ds \<noteq> []" "list_all (\<lambda>b. isOctalDigit (unat b)) ds"
  shows "decodeOctal (ds @ replicate n 0) = Some (octalValue (map unat ds))"
proof -
  have nz: "list_all (\<lambda>b. b \<noteq> 0) ds"
    using assms(2) by (induction ds) (auto simp: isOctalDigit_def)
  have "parseInt8 (map unat ds @ []) = Some (octalValue (map unat ds))"
    by (rule parseInt8_digits) (use assms in \<open>simp_all add: list_all_iff\<close>)
  then show ?thesis
    using assms(1) by (simp add: decodeOctal_def decodeString_no_NUL [OF nz])
qed

lemma decodeOctal_all_NUL: "decodeOctal (replicate n 0) = Some 0"
  by (simp add: decodeOctal_def decodeString_all_NUL)

lemma decodeOctal_0000644: "decodeOctal (ascii ''0000644'' @ replicate n 0) = Some 420"
  using decodeOctal_digits [of "ascii ''0000644''" n]
  by (simp add: ascii_def isOctalDigit_def octalValue_def)

text \<open>The older decoder reads the same digits, but a field of NULs is \<^verbatim>\<open>NaN\<close>: the
  decoded text is not empty, and it does not start with a digit.\<close>

lemma older_decoder_digits:
  assumes "ds \<noteq> []" "list_all (\<lambda>b. isOctalDigit (unat b)) ds"
  shows "parseInt8 (decode (ds @ replicate n 0)) = Some (octalValue (map unat ds))"
proof -
  have ascii: "list_all (\<lambda>b. unat b \<le> 0x7F) (ds @ replicate n 0)"
    using assms(2) by (auto simp: list_all_iff isOctalDigit_def)
  have "parseInt8 (map unat ds @ replicate n 0) = Some (octalValue (map unat ds))"
    by (rule parseInt8_digits) (use assms in \<open>auto simp: list_all_iff isOctalDigit_def\<close>)
  then show ?thesis by (simp add: decode_ascii [OF ascii])
qed

lemma older_decoder_all_NUL: "parseInt8 (decode (replicate n 0)) = None"
proof -
  have "decode (replicate n 0) = replicate n 0"
    using decode_ascii [of "replicate n 0"] by (simp add: list_all_iff)
  then show ?thesis
    by (cases n) (simp_all add: parseInt8_def isWhiteSpace_def isOctalDigit_def)
qed

subsection \<open>Metadata of a block\<close>

lemma metadata_labels_A: "list_all (\<lambda>l. parseHeader_A block (Some l) \<noteq> None) metadata_labels"
  by (simp add: metadata_labels_def parseHeader_A_fields)

lemma metadata_labels_S: "list_all (\<lambda>l. parseHeader_S block (Some l) \<noteq> None) metadata_labels"
  by (simp add: metadata_labels_def parseHeader_S_fields)

lemma parseMetadata_numbers_A:
  "\<exists>m. parseMetadata (parseHeader_A block) = Inr m
     \<and> mode m = decodeOctal (subarray block 100 108)
     \<and> uid m = decodeOctal (subarray block 108 116)
     \<and> gid m = decodeOctal (subarray block 116 124)
     \<and> size_e m = decodeOctal (subarray block 124 136)
     \<and> mtime m = decodeOctal (subarray block 136 148)
     \<and> type_e m = FILE_TYPES (decodeOctal (subarray block 156 157))
     \<and> majorNumber m = decodeOctal (subarray block 329 337)
     \<and> minorNumber m = decodeOctal (subarray block 337 345)"
  using metadata_labels_A [of block]
  by (simp add: parseMetadata_def field_def parseHeader_A_fields Let_def)

lemma parseMetadata_numbers_S:
  "\<exists>m. parseMetadata (parseHeader_S block) = Inr m
     \<and> mode m = decodeOctal (subarray block 100 108)
     \<and> uid m = decodeOctal (subarray block 108 116)
     \<and> gid m = decodeOctal (subarray block 116 124)
     \<and> size_e m = decodeOctal (subarray block 124 136)
     \<and> mtime m = decodeOctal (subarray block 136 148)
     \<and> type_e m = FILE_TYPES (decodeOctal (subarray block 156 157))
     \<and> majorNumber m = decodeOctal (subarray block 329 337)
     \<and> minorNumber m = decodeOctal (subarray block 337 345)"
  using metadata_labels_S [of block]
  by (simp add: parseMetadata_def field_def parseHeader_S_fields Let_def)

lemma parseMetadata_B_numbers:
  "\<exists>m. parseMetadata_B (parseHeader_A block) = Inr m
     \<and> mode_B m = parseInt8 (decode (subarray block 100 108))
     \<and> uid_B m = parseInt8 (decode (subarray block 108 116))
     \<and> gid_B m = parseInt8 (decode (subarray block 116 124))
     \<and> size_B m = parseInt8 (decode (subarray block 124 136))
     \<and> mtime_B m = parseInt8 (decode (subarray block 136 148))
     \<and> type_B m = FILE_TYPES (parseInt8 (decode (subarray block 156 157)))
     \<and> majorNumber_B m = parseInt8 (decode (subarray block 329 337))
     \<and> minorNumber_B m = parseInt8 (decode (subarray block 337 345))"
  using metadata_labels_A [of block]
  by (simp add: parseMetadata_B_def field_def parseHeader_A_fields Let_def)

lemma file_block_fields:
  "subarray file_block 100 108 = ascii ''0000644'' @ [0]"
  "subarray file_block 124 136 = ascii ''00000000144'' @ [0]"
  "subarray file_block 148 156 = ascii ''006107'' @ [0, 0x20]"
  "subarray file_block 156 157 = [0x30]"
  "subarray file_block 257 265 = ascii ''ustar'' @ [0] @ ascii ''00''"
  "subarray file_block 329 337 = replicate 8 0"
  "subarray file_block 337 345 = replicate 8 0"
  by (simp_all add: example_blocks subarray_def)

lemma getHeader_B_file_block:
  "getHeader_B (file_block # rest) = Inr (Some (parseHeader_A file_block), rest)"
proof -
  have "decode (subarray file_block 148 156) = map unat (subarray file_block 148 156)"
    by (rule decode_ascii) (simp add: file_block_fields ascii_def)
  then have cs: "parseInt8 (decode (subarray file_block 148 156)) = Some 3143"
    by (simp add: file_block_fields ascii_def parseInt8_eval)
  have "decode (subarray file_block 257 265) = map unat (subarray file_block 257 265)"
    by (rule decode_ascii) (simp add: file_block_fields ascii_def)
  then have mg: "indexOf (decode (subarray file_block 257 265)) (js ''ustar'') = 0"
    by (simp add: file_block_fields ascii_def indexOf_def js_def)
  show ?thesis
    by (simp add: getHeader_B_def reader_next_def field_def parseHeader_A_fields
      getChecksum_example_blocks cs mg js_strict_eq_def)
qed

lemma subarray_single: "i < length block \<Longrightarrow> subarray block i (Suc i) = [block ! i]"
  by (simp add: subarray_def take_Suc_conv_app_nth)

lemma parseInt8_no_digit: "\<not> isOctalDigit c \<Longrightarrow> parseInt8 [c] = None"
  by (simp add: parseInt8_def Let_def)

lemma decodeOctal_no_digit:
  "b \<noteq> 0 \<Longrightarrow> \<not> isOctalDigit (unat b) \<Longrightarrow> decodeOctal [b] = None"
  by (simp add: decodeOctal_def parseInt8_no_digit)

lemma FILE_TYPES_NaN: "FILE_TYPES None = None"
  by (simp add: FILE_TYPES_def)

lemma type_flag_example_blocks:
  "type8_block ! 156 = 0x38" "type9_block ! 156 = 0x39" "file_block ! 156 = 0x30"
  by (simp_all add: example_blocks nth_append)

lemma getHeader_A_example_blocks:
  "getHeader_A (file_block # rest) = Inr (Some (parseHeader_A file_block), rest)"
  "getHeader_A (type8_block # rest) = Inr (Some (parseHeader_A type8_block), rest)"
  "getHeader_A (type9_block # rest) = Inr (Some (parseHeader_A type9_block), rest)"
  by (simp_all add: getHeader_A_def reader_next_def field_def parseHeader_A_fields
      getChecksum_example_blocks checksum_field_example_blocks magic_example_blocks
      indexOf_ustar js_strict_eq_def)

subsection \<open>The block sum after a change of one byte\<close>

lemma sum_unat_update:
  "j < length ys \<Longrightarrow>
   sum_list (map unat (ys[j := b])) + unat (ys ! j) = sum_list (map unat ys) + unat (b :: byte)"
proof (induction ys arbitrary: j)
  case Nil
  then show ?case by simp
next
  case (Cons y ys)
  then show ?case by (cases j) (simp_all add: add.assoc)
qed

lemma getChecksum_update:
  assumes "512 \<le> length block" "i < 512" "\<not> (148 \<le> i \<and> i < 156)"
  shows "\<exists>s s'. getChecksum block = Some (INITIAL_CHECKSUM + int s)
           \<and> getChecksum (block[i := b]) = Some (INITIAL_CHECKSUM + int s')
           \<and> s' + unat (block ! i) = s + unat b"
proof (cases "i < 148")
  case True
  have "sum_list (map unat ((take 148 block)[i := b])) + unat (take 148 block ! i)
      = sum_list (map unat (take 148 block)) + unat b"
    by (rule sum_unat_update) (use True assms in simp)
  then have "sum_list (map unat ((take 148 block)[i := b])) + unat (block ! i)
      = sum_list (map unat (take 148 block)) + unat b"
    using True by simp
  moreover have "take 148 (block[i := b]) = (take 148 block)[i := b]"
    by (simp add: take_update_swap)
  moreover have "drop 156 (block[i := b]) = drop 156 block"
    using True by simp
  ultimately show ?thesis
    using assms(1)
    by (intro exI [of _ "sum_list (map unat (take 148 block))
          + sum_list (map unat (take 356 (drop 156 block)))"]
        exI [of _ "sum_list (map unat ((take 148 block)[i := b]))
          + sum_list (map unat (take 356 (drop 156 block)))"])
      (simp add: getChecksum_eq)
next
  case False
  with assms have i: "156 \<le> i" "i < 512" by auto
  have nth: "take 356 (drop 156 block) ! (i - 156) = block ! i"
    using i assms(1) by simp
  have "sum_list (map unat ((take 356 (drop 156 block))[i - 156 := b]))
        + unat (take 356 (drop 156 block) ! (i - 156))
      = sum_list (map unat (take 356 (drop 156 block))) + unat b"
    by (rule sum_unat_update) (use i assms in simp)
  then have "sum_list (map unat ((take 356 (drop 156 block))[i - 156 := b])) + unat (block ! i)
      = sum_list (map unat (take 356 (drop 156 block))) + unat b"
    by (simp only: nth)
  moreover have "take 356 (drop 156 (block[i := b])) = (take 356 (drop 156 block))[i - 156 := b]"
    using i by (simp add: drop_update_swap take_update_swap)
  moreover have "take 148 (block[i := b]) = take 148 block"
    using i by simp
  ultimately show ?thesis
    using assms(1)
    by (intro exI [of _ "sum_list (map unat (take 148 block))
          + sum_list (map unat (take 356 (drop 156 block)))"]
        exI [of _ "sum_list (map unat (take 148 block))
          + sum_list (map unat ((take 356 (drop 156 block))[i - 156 := b]))"])
      (simp add: getChecksum_eq)
qed

lemma getChecksum_nonzero_byte:
  assumes "512 \<le> length block" "j < 512" "\<not> (148 \<le> j \<and> j < 156)" "block ! j \<noteq> 0"
  shows "getChecksum block \<noteq> Some INITIAL_CHECKSUM"
proof -
  have pos: "0 < unat (block ! j)" using assms(4) by (simp add: unat_gt_0)
  have "unat (block ! j) \<le> sum_list (map unat (take 148 block))
      + sum_list (map unat (take 356 (drop 156 block)))"
  proof (cases "j < 148")
    case True
    then have "block ! j \<in> set (take 148 block)"
      using assms(1) by (auto simp: in_set_conv_nth intro!: exI [of _ j])
    then have "unat (block ! j) \<le> sum_list (map unat (take 148 block))"
      by (intro member_le_sum_list) auto
    then show ?thesis by simp
  next
    case False
    with assms have j: "156 \<le> j" "j < 512" by auto
    have "take 356 (drop 156 block) ! (j - 156) = block ! j"
      using j assms(1) by simp
    moreover have "j - 156 < length (take 356 (drop 156 block))"
      using j assms(1) by simp
    ultimately have "block ! j \<in> set (take 356 (drop 156 block))"
      by (metis nth_mem)
    then have "unat (block ! j) \<le> sum_list (map unat (take 356 (drop 156 block)))"
      by (intro member_le_sum_list) auto
    then show ?thesis by simp
  qed
  with pos show ?thesis
    using assms(1) by (simp add: getChecksum_eq)
qed

lemma subarray_update_outside:
  assumes "i < lo \<or> hi \<le> i"
  shows "subarray (block[i := b]) lo hi = subarray block lo hi"
proof (cases "i < lo")
  case True
  then show ?thesis by (simp add: subarray_def)
next
  case False
  with assms have "hi - lo \<le> i - lo" "lo \<le> i" by auto
  then show ?thesis by (simp add: subarray_def drop_update_swap)
qed

lemma indexOf_from_range: "indexOf_from i s t = - 1 \<or> i \<le> indexOf_from i s t"
  by (induction i s t rule: indexOf_from.induct) auto

lemma indexOf_eq_0: "indexOf s t = 0 \<Longrightarrow> take (length t) s = t"
proof (cases s)
  case Nil
  assume "indexOf s t = 0"
  with Nil show ?thesis by (simp add: indexOf_def split: if_splits)
next
  case (Cons c s')
  assume 0: "indexOf s t = 0"
  show ?thesis
  proof (rule ccontr)
    assume "take (length t) s \<noteq> t"
    with 0 Cons have "indexOf_from 1 s' t = 0" by (simp add: indexOf_def)
    with indexOf_from_range [of 1 s' t] show False by simp
  qed
qed

lemma subarray_Cons: "lo < length block \<Longrightarrow> lo < hi \<Longrightarrow>
    subarray block lo hi = block ! lo # subarray block (Suc lo) hi"
  by (simp add: subarray_def Cons_nth_drop_Suc [symmetric] take_Cons')

lemma magic_bytes:
  assumes "259 \<le> length block" "259 \<le> hi"
    "indexOf (decodeString (subarray block 257 hi)) (js ''ustar'') = 0"
  shows "block ! 257 \<noteq> 0 \<and> block ! 258 \<noteq> 0"
proof -
  have sub: "subarray block 257 hi = block ! 257 # block ! 258 # subarray block 259 hi"
    using assms(1,2) subarray_Cons [of 257 block hi] subarray_Cons [of 258 block hi] by simp
  have "take (length (js ''ustar'')) (decodeString (subarray block 257 hi)) = js ''ustar''"
    using assms(3) by (rule indexOf_eq_0)
  then show ?thesis
    by (auto simp: sub js_def split: if_splits)
qed

lemma checksum_check_after_change:
  assumes "512 \<le> length c" "i < 512" "\<not> (148 \<le> i \<and> i < 156)" "b \<noteq> c ! i"
    "js_strict_eq (parseInt8 (decodeString (subarray c 148 156))) (getChecksum c)"
    "c ! 257 \<noteq> 0 \<and> c ! 258 \<noteq> 0"
  shows "\<not> js_strict_eq (parseInt8 (decodeString (subarray (c[i := b]) 148 156)))
           (getChecksum (c[i := b]))"
    and "\<not> js_strict_eq (getChecksum (c[i := b])) (Some INITIAL_CHECKSUM)"
proof -
  obtain s s' where s: "getChecksum c = Some (INITIAL_CHECKSUM + int s)"
      "getChecksum (c[i := b]) = Some (INITIAL_CHECKSUM + int s')"
      "s' + unat (c ! i) = s + unat b"
    using getChecksum_update [OF assms(1-3)] by blast
  have "unat b \<noteq> unat (c ! i)" using assms(4) by (simp add: word_unat_eq_iff)
  with s(3) have ne: "s' \<noteq> s" by arith
  have same: "subarray (c[i := b]) 148 156 = subarray c 148 156"
    by (rule subarray_update_outside) (use assms(3) in arith)
  show "\<not> js_strict_eq (parseInt8 (decodeString (subarray (c[i := b]) 148 156)))
           (getChecksum (c[i := b]))"
    using assms(5) ne by (auto simp: same s js_strict_eq_def split: option.splits)
  obtain j where j: "j = 257 \<or> j = 258" "j \<noteq> i" by (cases "i = 257") auto
  then have "(c[i := b]) ! j \<noteq> 0" using assms(6) by auto
  then have "getChecksum (c[i := b]) \<noteq> Some INITIAL_CHECKSUM"
    by (intro getChecksum_nonzero_byte [of _ j]) (use j assms(1) in auto)
  then show "\<not> js_strict_eq (getChecksum (c[i := b])) (Some INITIAL_CHECKSUM)"
    by (auto simp: js_strict_eq_def split: option.splits)
qed

lemma getHeader_S_example_blocks:
  "getHeader_S \<lparr>content = pre @ file_block @ post, cursor = length pre, grants = []\<rparr>
      (replicate 512 0)
    = Inr (Some (parseHeader_S file_block),
        \<lparr>content = pre @ file_block @ post, cursor = length pre + 512, grants = []\<rparr>,
        file_block)"
  using rs_read_block [of file_block "replicate 512 0" pre post]
  by (simp add: getHeader_S_def length_example_blocks
      getChecksum_example_blocks checksum_field_example_blocks magic_example_blocks
      indexOf_ustar js_strict_eq_def)

subsection \<open>The example entries and the archive of two members\<close>

lemma file_block_strings:
  "decodeString (subarray file_block 0 100) = js ''a''"
  "decodeString (subarray file_block 345 500) = []"
  "decodeString (subarray file_block 157 257) = []"
  "decodeString (subarray file_block 265 297) = []"
  "decodeString (subarray file_block 297 329) = []"
  by (simp_all add: example_blocks subarray_def js_def decodeString_all_NUL)

lemma file_block_numbers:
  "decodeOctal (subarray file_block 100 108) = Some 420"
  "decodeOctal (subarray file_block 108 116) = Some 0"
  "decodeOctal (subarray file_block 116 124) = Some 0"
  "decodeOctal (subarray file_block 124 136) = Some 100"
  "decodeOctal (subarray file_block 136 148) = Some 0"
  "decodeOctal (subarray file_block 156 157) = Some 0"
  "decodeOctal (subarray file_block 329 337) = Some 0"
  "decodeOctal (subarray file_block 337 345) = Some 0"
  by (simp_all add: example_blocks subarray_def decodeOctal_def parseInt8_eval decodeString_all_NUL)

lemma FILE_TYPES_0: "FILE_TYPES (Some 0) = Some (js ''file'')"
  by (simp add: FILE_TYPES_def FILE_TYPES_table_def)

lemma parseMetadata_file_block:
  "parseMetadata (parseHeader_S file_block) = Inr file_metadata"
  "parseMetadata (parseHeader_A file_block) = Inr file_metadata"
  using metadata_labels_S [of file_block] metadata_labels_A [of file_block]
  by (simp_all add: parseMetadata_def field_def parseHeader_S_fields parseHeader_A_fields
      file_block_strings file_block_numbers FILE_TYPES_0 file_metadata_def js_def)

lemma ceil_to_record_100: "ceil_to_record (Some 100) = Some 512"
  by (simp add: ceil_to_record_def RECORD_SIZE_def)

lemma new_TarEntry_file_block:
  "new_TarEntry_S (parseHeader_S file_block) = Inr file_entry_S"
  "new_TarEntry_A (parseHeader_A file_block) = Inr file_entry_A"
  by (simp_all add: new_TarEntry_S_def new_TarEntry_A_def parseMetadata_file_block
      file_entry_S_def file_entry_A_def file_metadata_def ceil_to_record_100)

lemma file_entry_S_fields:
  "size_e file_entry_S = Some 100" "entrySize_S file_entry_S = Some 512"
  "p_read_S file_entry_S = Some 0"
  by (simp_all add: file_entry_S_def file_metadata_def metadata.defs tar_entry_S.defs)


lemma length_two_files: "length two_files = 3072" "length body_block = 512"
  by (simp_all add: two_files_def body_block_def length_example_blocks)

lemma extract_S_first:
  "extract_S (new_Untar_S \<lparr>content = two_files, cursor = 0, grants = []\<rparr>)
     = Inr (Some file_entry_S, \<lparr>entry_S = Some file_entry_S,
         p_reader = \<lparr>content = two_files, cursor = 512, grants = []\<rparr>, p_chunk = file_block\<rparr>)"
  using getHeader_S_example_blocks [of "[]" "body_block @ file_block @ body_block @ replicate 1024 0"]
  by (simp add: extract_S_def new_Untar_S_def two_files_def new_TarEntry_file_block)

lemma discard_S_file_entry:
  "discard_S file_entry_S \<lparr>content = c, cursor = k, grants = gs\<rparr>
     = (file_entry_S, \<lparr>content = c, cursor = k + 512, grants = gs\<rparr>)"
  by (simp add: discard_S_def file_entry_S_fields js_sub_def js_le_def rs_seek_def nat_add_distrib)

lemma rs_read_at:
  assumes "length pre = k" "length block = 512" "length chunk = 512"
  shows "rs_read \<lparr>content = pre @ block @ post, cursor = k, grants = []\<rparr> chunk
    = (Some 512, block, \<lparr>content = pre @ block @ post, cursor = k + 512, grants = []\<rparr>)"
  using assms rs_read_block [of block chunk pre post] by simp

lemma getChecksum_body_block: "getChecksum body_block = Some 12256"
  by (simp add: getChecksum_eq length_two_files INITIAL_CHECKSUM_def)
     (simp add: body_block_def sum_list_replicate)

lemma checksum_field_body_block: "parseInt8 (decodeString (subarray body_block 148 156)) = None"
  by (simp add: body_block_def subarray_def decodeString_all_NUL parseInt8_empty)

lemma getHeader_S_body:
  "getHeader_S \<lparr>content = two_files, cursor = 1536, grants = []\<rparr> file_block = Inl ChecksumError"
proof -
  have "rs_read \<lparr>content = (file_block @ body_block @ file_block) @ body_block @ replicate 1024 0,
      cursor = 1536, grants = []\<rparr> file_block
    = (Some 512, body_block, \<lparr>content = (file_block @ body_block @ file_block) @ body_block
         @ replicate 1024 0, cursor = 1536 + 512, grants = []\<rparr>)"
    by (rule rs_read_at) (simp_all add: length_example_blocks length_two_files)
  then show ?thesis
    by (simp add: getHeader_S_def two_files_def getChecksum_body_block
        checksum_field_body_block js_strict_eq_def INITIAL_CHECKSUM_def)
qed

lemma getHeader_S_second:
  "getHeader_S \<lparr>content = two_files, cursor = 1024, grants = []\<rparr> file_block
    = Inr (Some (parseHeader_S file_block),
        \<lparr>content = two_files, cursor = 1536, grants = []\<rparr>, file_block)"
proof -
  have "rs_read \<lparr>content = (file_block @ body_block) @ file_block @ body_block @ replicate 1024 0,
      cursor = 1024, grants = []\<rparr> file_block
    = (Some 512, file_block, \<lparr>content = (file_block @ body_block) @ file_block @ body_block
         @ replicate 1024 0, cursor = 1024 + 512, grants = []\<rparr>)"
    by (rule rs_read_at) (simp_all add: length_example_blocks length_two_files)
  then show ?thesis
    by (simp add: getHeader_S_def two_files_def getChecksum_example_blocks
        checksum_field_example_blocks magic_example_blocks indexOf_ustar js_strict_eq_def)
qed

subsection \<open>Reading from the seekable source\<close>

lemma rs_read_cases:
  assumes "rs_read r p = (n, p', r')"
  shows "(n = None \<and> r' = r \<and> p' = p \<and> length (content r) \<le> cursor r)
       \<or> (\<exists>m. n = Some (int m) \<and> m \<le> length p \<and> cursor r < length (content r)
             \<and> p' = take m (drop (cursor r) (content r)) @ drop m p
             \<and> m \<le> length (content r) - cursor r
             \<and> r' = r\<lparr>cursor := cursor r + m, grants := tl (grants r)\<rparr>
             \<and> (grants r = [] \<longrightarrow> m = min (length p) (length (content r) - cursor r)))"
proof (cases "length (content r) \<le> cursor r")
  case True
  with assms show ?thesis by (simp add: rs_read_def)
next
  case False
  define k where "k = (case grants r of [] \<Rightarrow> length p | g # gs \<Rightarrow> min g (length p))"
  define m where "m = min k (length (content r) - cursor r)"
  have k: "k \<le> length p" by (simp add: k_def split: list.splits)
  have len: "length (take k (drop (cursor r) (content r))) = m" by (simp add: m_def)
  have tk: "take k (drop (cursor r) (content r)) = take m (drop (cursor r) (content r))"
    by (simp add: m_def min_def)
  have "n = Some (int m)" "p' = take m (drop (cursor r) (content r)) @ drop m p"
    "r' = r\<lparr>cursor := cursor r + m, grants := tl (grants r)\<rparr>"
    using assms False unfolding rs_read_def Let_def k_def [symmetric] len
    by (simp_all add: tk)
  moreover have "m \<le> length p" "m \<le> length (content r) - cursor r"
    using k by (simp_all add: m_def)
  moreover have "grants r = [] \<longrightarrow> m = min (length p) (length (content r) - cursor r)"
    by (simp add: m_def k_def)
  ultimately show ?thesis using False by auto
qed

lemma drop_two_files:
  "drop 512 two_files = body_block @ file_block @ body_block @ replicate 1024 0"
  by (simp add: two_files_def length_example_blocks)

lemma rs_read_body:
  "n \<le> 100 \<Longrightarrow> rs_read \<lparr>content = two_files, cursor = 512, grants = []\<rparr> (replicate n 0)
     = (Some (int n), replicate n 0x78, \<lparr>content = two_files, cursor = 512 + n, grants = []\<rparr>)"
  by (simp add: rs_read_def length_two_files drop_two_files body_block_def min_def)

lemma read_S_past_the_end:
  "read_S file_entry_S \<lparr>content = two_files, cursor = 512, grants = []\<rparr> (replicate 200 0)
     = (Some 100, replicate 100 0x78 @ replicate 100 0, file_entry_S\<lparr>p_read_S := Some 100\<rparr>,
        \<lparr>content = two_files, cursor = 612, grants = []\<rparr>)"
  using rs_read_body [of 100]
  by (simp add: read_S_def file_entry_S_fields js_sub_def js_le_def js_add_def new_Uint8Array_def Let_def)


subsection \<open>The padded size and the bytes taken for a body\<close>













lemma discard_S_after_read:
  "discard_S (file_entry_S\<lparr>p_read_S := Some k\<rparr>) \<lparr>content = c, cursor = n, grants = gs\<rparr>
     = (file_entry_S\<lparr>p_read_S := Some k\<rparr>,
        if 512 - k \<le> 0 then \<lparr>content = c, cursor = n, grants = gs\<rparr>
        else \<lparr>content = c, cursor = nat (int n + (512 - k)), grants = gs\<rparr>)"
  by (simp add: discard_S_def file_entry_S_fields js_sub_def js_le_def rs_seek_def)

subsection \<open>Calls after the end of the archive\<close>

lemma discard_A_consumed: "discard_A e r = Inr (e', r') \<Longrightarrow> p_consumed e'"
proof (induction e r rule: discard_A.induct)
  case (1 entry r)
  show ?case
  proof (cases "p_consumed entry")
    case True
    with "1.prems" show ?thesis by (simp add: discard_A.simps [of entry])
  next
    case False
    then obtain res e1 r1 where n: "next_A entry r = Inr (res, e1, r1)"
      and d: "discard_A e1 r1 = Inr (e', r')"
      using "1.prems" by (auto simp: discard_A.simps [of entry] split: sum.splits)
    from "1.IH" [OF False n refl refl d] show ?thesis .
  qed
qed

lemma extract_A_null_idle:
  assumes "extract_A this = Inr (None, this')"
  shows "list_all p_consumed (case entry_A this' of None \<Rightarrow> [] | Some e \<Rightarrow> [e])"
proof -
  define pre where "pre = (case entry_A this of
              Some entry \<Rightarrow>
                (if \<not> p_consumed entry then
                   (case discard_A entry (reader_A this) of
                      Inl e \<Rightarrow> Inl e
                    | Inr (entry', r') \<Rightarrow> Inr \<lparr> entry_A = Some entry', reader_A = r' \<rparr>)
                 else Inr this)
            | None \<Rightarrow> Inr this)"
  have ex: "extract_A this = (case pre of
        Inl e \<Rightarrow> Inl e
      | Inr this1 \<Rightarrow>
          (case getHeader_A (reader_A this1) of
             Inl e \<Rightarrow> Inl e
           | Inr (None, r') \<Rightarrow> Inr (None, this1\<lparr>reader_A := r'\<rparr>)
           | Inr (Some header, r') \<Rightarrow>
               (case new_TarEntry_A header of
                  Inl e \<Rightarrow> Inl e
                | Inr entry \<Rightarrow> Inr (Some entry, \<lparr> entry_A = Some entry, reader_A = r' \<rparr>))))"
    unfolding extract_A_def pre_def ..
  obtain this1 where p: "pre = Inr this1"
    using assms unfolding ex by (cases pre) simp_all
  obtain h r' where g: "getHeader_A (reader_A this1) = Inr (h, r')"
    using assms unfolding ex p by (cases "getHeader_A (reader_A this1)") auto
  have "h = None"
    using assms unfolding ex p by (cases h; cases "new_TarEntry_A (the h)") (simp_all add: g)
  then have t: "this' = this1\<lparr>reader_A := r'\<rparr>"
    using assms unfolding ex p by (simp add: g)
  have "list_all p_consumed (case entry_A this1 of None \<Rightarrow> [] | Some e \<Rightarrow> [e])"
  proof (cases "entry_A this")
    case None
    with p show ?thesis by (simp add: pre_def)
  next
    case (Some entry)
    show ?thesis
    proof (cases "p_consumed entry")
      case True
      with p Some show ?thesis by (simp add: pre_def)
    next
      case False
      with p Some obtain e1 r1 where d: "discard_A entry (reader_A this) = Inr (e1, r1)"
        and t1: "this1 = \<lparr> entry_A = Some e1, reader_A = r1 \<rparr>"
        by (cases "discard_A entry (reader_A this)")
          (auto simp: pre_def)
      from discard_A_consumed [OF d] t1 show ?thesis by simp
    qed
  qed
  then show ?thesis by (simp add: t)
qed

lemma extract_A_zero_blocks:
  assumes "list_all p_consumed (case entry_A this of None \<Rightarrow> [] | Some e \<Rightarrow> [e])"
    "list_all (\<lambda>b. b = replicate 512 0) (reader_A this)"
  shows "extract_A this = Inr (None, this\<lparr>reader_A := tl (reader_A this)\<rparr>)"
proof -
  have h: "getHeader_A (reader_A this) = Inr (None, tl (reader_A this))"
  proof (cases "reader_A this")
    case Nil
    then show ?thesis by (simp add: getHeader_A_def reader_next_def)
  next
    case (Cons b bs)
    with assms(2) show ?thesis by (simp add: getHeader_A_zero_block)
  qed
  show ?thesis
    using assms(1) by (simp add: extract_A_def h split: option.splits)
qed

lemma extracts_A_zero_blocks:
  assumes "list_all p_consumed (case entry_A this of None \<Rightarrow> [] | Some e \<Rightarrow> [e])"
    "list_all (\<lambda>b. b = replicate 512 0) (reader_A this)"
  shows "\<exists>this'. extracts_A n this = Inr (replicate n None, this')"
  using assms
proof (induction n arbitrary: this)
  case 0
  then show ?case by simp
next
  case (Suc n)
  let ?next = "this\<lparr>reader_A := tl (reader_A this)\<rparr>"
  have "list_all (\<lambda>b. b = replicate 512 0) (reader_A ?next)"
    using Suc.prems(2) by (cases "reader_A this") simp_all
  with Suc.IH [of ?next] Suc.prems(1)
  obtain this' where "extracts_A n ?next = Inr (replicate n None, this')" by auto
  then show ?case
    by (simp add: extract_A_zero_blocks [OF Suc.prems])
qed

lemma getChecksum_all_zero:
  assumes "512 \<le> length c" "\<forall>j :: nat. j < 512 \<longrightarrow> \<not> (148 \<le> j \<and> j < 156) \<longrightarrow> c ! j = 0"
  shows "getChecksum c = Some INITIAL_CHECKSUM"
proof -
  have a: "\<forall>x \<in> set (take 148 c). x = 0"
    using assms by (auto simp: in_set_conv_nth)
  have b: "\<forall>x \<in> set (take 356 (drop 156 c)). x = 0"
  proof
    fix x assume "x \<in> set (take 356 (drop 156 c))"
    then obtain i where i: "i < 356" "x = take 356 (drop 156 c) ! i"
      by (auto simp: in_set_conv_nth)
    then have "x = c ! (156 + i)" using assms(1) by simp
    with i assms(2) show "x = 0" by simp
  qed
  have "map unat (take 148 c) = replicate 148 0"
    using a assms(1) by (intro replicate_eqI) auto
  moreover have "map unat (take 356 (drop 156 c)) = replicate 356 0"
    using b assms(1) by (intro replicate_eqI) auto
  ultimately show ?thesis
    by (simp add: getChecksum_eq [OF assms(1)] sum_list_replicate)
qed

lemma getChecksum_zero_bytes:
  assumes "512 \<le> length c" "getChecksum c = Some INITIAL_CHECKSUM"
    "j < 512" "\<not> (148 \<le> j \<and> j < 156)"
  shows "c ! j = 0"
  using getChecksum_nonzero_byte [OF assms(1,3,4)] assms(2) by blast

lemma null_block_refill:
  assumes "length c = 512" "null_block c" "m \<le> 512"
  shows "null_block (replicate m 0 @ drop m c)"
proof -
  let ?c = "replicate m 0 @ drop m c"
  have len: "length ?c = 512" using assms(1,3) by simp
  have sum: "getChecksum c = Some INITIAL_CHECKSUM"
    using assms(2) by (auto simp: null_block_def js_strict_eq_def split: option.splits)
  have "\<forall>j :: nat. j < 512 \<longrightarrow> \<not> (148 \<le> j \<and> j < 156) \<longrightarrow> ?c ! j = 0"
  proof (intro allI impI)
    fix j :: nat assume j: "j < 512" "\<not> (148 \<le> j \<and> j < 156)"
    have "c ! j = 0" by (rule getChecksum_zero_bytes [OF _ sum j]) (simp add: assms(1))
    then show "?c ! j = 0" using j(1) assms(1,3) by (simp add: nth_append)
  qed
  then have sum': "getChecksum ?c = Some INITIAL_CHECKSUM"
    using len by (intro getChecksum_all_zero) simp_all
  have "\<not> js_strict_eq (parseInt8 (decodeString (subarray ?c 148 156))) (Some INITIAL_CHECKSUM)"
  proof (cases "m \<le> 148")
    case True
    then have "subarray ?c 148 156 = subarray c 148 156"
      by (simp add: subarray_def)
    then show ?thesis using assms(2) by (simp add: null_block_def sum)
  next
    case False
    then have "subarray ?c 148 156 = 0 # tl (subarray ?c 148 156)"
      using assms(1,3) by (cases "m - 148") (simp_all add: subarray_def)
    then have "decodeString (subarray ?c 148 156) = []"
      by (metis decodeString.simps(2))
    then show ?thesis by (simp add: parseInt8_empty js_strict_eq_def)
  qed
  then show ?thesis by (simp add: null_block_def sum' js_strict_eq_def)
qed

lemma discard_S_forward:
  assumes "discard_S e r = (e', r')"
  shows "content r' = content r" "grants r' = grants r" "cursor r \<le> cursor r'"
  using assms
  by (auto simp: discard_S_def rs_seek_def js_le_def js_sub_def Let_def
      split: if_splits option.splits)

lemma zeros_after_forward:
  assumes "list_all (\<lambda>b. b = 0) (drop c xs)" "c \<le> c'"
  shows "list_all (\<lambda>b. b = (0 :: byte)) (drop c' xs)"
  using assms set_drop_subset_set_drop [of c c' xs]
  by (auto simp: list_all_iff)

lemma zeros_take:
  assumes "list_all (\<lambda>b. b = 0) xs" "m \<le> length xs"
  shows "take m xs = replicate m (0 :: byte)"
  using assms
  by (intro replicate_eqI) (auto simp: list_all_iff dest: in_set_takeD)

text \<open>Once the seekable reader is at the end of the source, or holds a null block in its
  buffer, with nothing but zero bytes ahead, \<^verbatim>\<open>extract\<close> returns \<^verbatim>\<open>null\<close> and leaves
  it so.\<close>

lemma extract_S_after_end:
  assumes "length (p_chunk this) = 512"
    "list_all (\<lambda>b. b = 0) (drop (cursor (p_reader this)) (content (p_reader this)))"
    "length (content (p_reader this)) \<le> cursor (p_reader this) \<or> null_block (p_chunk this)"
  shows "\<exists>this'. extract_S this = Inr (None, this') \<and> length (p_chunk this') = 512
    \<and> list_all (\<lambda>b. b = 0) (drop (cursor (p_reader this')) (content (p_reader this')))
    \<and> (length (content (p_reader this')) \<le> cursor (p_reader this')
          \<or> null_block (p_chunk this'))"
proof -
  define this1 where "this1 = (case entry_S this of
                     Some entry \<Rightarrow>
                       (let (entry', r') = discard_S entry (p_reader this)
                        in this\<lparr>entry_S := Some entry', p_reader := r'\<rparr>)
                   | None \<Rightarrow> this)"
  have ex: "extract_S this = (case getHeader_S (p_reader this1) (p_chunk this1) of
           Inl e \<Rightarrow> Inl e
         | Inr (None, r', chunk) \<Rightarrow> Inr (None, this1\<lparr>p_reader := r', p_chunk := chunk\<rparr>)
         | Inr (Some header, r', chunk) \<Rightarrow>
             (case new_TarEntry_S header of
                Inl e \<Rightarrow> Inl e
              | Inr entry \<Rightarrow>
                  Inr (Some entry, \<lparr> entry_S = Some entry, p_reader = r', p_chunk = chunk \<rparr>)))"
    unfolding extract_S_def this1_def Let_def ..
  have "content (p_reader this1) = content (p_reader this)
      \<and> cursor (p_reader this) \<le> cursor (p_reader this1) \<and> p_chunk this1 = p_chunk this"
  proof (cases "entry_S this")
    case None
    then show ?thesis by (simp add: this1_def)
  next
    case (Some entry)
    obtain e' r' where d: "discard_S entry (p_reader this) = (e', r')"
      by (cases "discard_S entry (p_reader this)") auto
    then have t: "this1 = this\<lparr>entry_S := Some e', p_reader := r'\<rparr>"
      using Some by (simp add: this1_def)
    show ?thesis
      using discard_S_forward [OF d] by (simp add: t)
  qed
  then have r1: "content (p_reader this1) = content (p_reader this)"
    "cursor (p_reader this) \<le> cursor (p_reader this1)"
    "p_chunk this1 = p_chunk this"
    by simp_all
  let ?r = "p_reader this1" and ?c = "p_chunk this"
  have zeros: "list_all (\<lambda>b. b = 0) (drop (cursor ?r) (content ?r))"
    using zeros_after_forward [OF assms(2) r1(2)] by (simp add: r1(1))
  obtain n chunk r' where rd: "rs_read ?r ?c = (n, chunk, r')"
    by (cases "rs_read ?r ?c") auto
  from rs_read_cases [OF rd] show ?thesis
  proof (elim disjE conjE exE)
    assume "n = None" "r' = ?r" "chunk = ?c" "length (content ?r) \<le> cursor ?r"
    then show ?thesis
      using zeros assms(1) by (simp add: ex getHeader_S_def r1(3) rd)
  next
    fix m
    assume m: "n = Some (int m)" "m \<le> length ?c" "cursor ?r < length (content ?r)"
      "chunk = take m (drop (cursor ?r) (content ?r)) @ drop m ?c"
      "m \<le> length (content ?r) - cursor ?r"
      "r' = ?r\<lparr>cursor := cursor ?r + m, grants := tl (grants ?r)\<rparr>"
    have "\<not> length (content (p_reader this)) \<le> cursor (p_reader this)"
      using m(3) r1(1,2) by simp
    with assms(3) have nb: "null_block ?c" by simp
    have "take m (drop (cursor ?r) (content ?r)) = replicate m 0"
      using zeros m(5) by (intro zeros_take) simp_all
    then have chunk: "chunk = replicate m 0 @ drop m ?c" by (simp add: m(4))
    have nb': "null_block chunk"
      unfolding chunk using assms(1) nb m(2) by (intro null_block_refill) simp_all
    have len: "length chunk = 512" using m(2) assms(1) by (simp add: chunk)
    have zeros': "list_all (\<lambda>b. b = 0) (drop (cursor r') (content r'))"
      using zeros_after_forward [OF zeros, of "cursor ?r + m"] by (simp add: m(6))
    have "getHeader_S ?r ?c = Inr (None, r', chunk)"
      using nb' by (simp add: getHeader_S_def rd m(1) null_block_def Let_def)
    then show ?thesis
      using len zeros' nb' by (simp add: ex r1(3))
  qed
qed

lemma extracts_S_after_end:
  assumes "length (p_chunk this) = 512"
    "list_all (\<lambda>b. b = 0) (drop (cursor (p_reader this)) (content (p_reader this)))"
    "length (content (p_reader this)) \<le> cursor (p_reader this) \<or> null_block (p_chunk this)"
  shows "\<exists>this'. extracts_S n this = Inr (replicate n None, this')"
  using assms
proof (induction n arbitrary: this)
  case 0
  then show ?case by simp
next
  case (Suc n)
  from extract_S_after_end [OF Suc.prems]
  obtain this1 where s: "extract_S this = Inr (None, this1)" "length (p_chunk this1) = 512"
    "list_all (\<lambda>b. b = 0) (drop (cursor (p_reader this1)) (content (p_reader this1)))"
    "length (content (p_reader this1)) \<le> cursor (p_reader this1) \<or> null_block (p_chunk this1)"
    by blast
  from Suc.IH [OF s(2-4)] obtain this' where "extracts_S n this1 = Inr (replicate n None, this')"
    by blast
  then show ?case by (simp add: s(1))
qed

lemma extract_S_null_state:
  assumes "extract_S this = Inr (None, this')" "length (p_chunk this) = 512"
  shows "length (p_chunk this') = 512
    \<and> (length (content (p_reader this')) \<le> cursor (p_reader this')
          \<or> null_block (p_chunk this'))"
proof -
  define this1 where "this1 = (case entry_S this of
                     Some entry \<Rightarrow>
                       (let (entry', r') = discard_S entry (p_reader this)
                        in this\<lparr>entry_S := Some entry', p_reader := r'\<rparr>)
                   | None \<Rightarrow> this)"
  have ex: "extract_S this = (case getHeader_S (p_reader this1) (p_chunk this1) of
           Inl e \<Rightarrow> Inl e
         | Inr (None, r', chunk) \<Rightarrow> Inr (None, this1\<lparr>p_reader := r', p_chunk := chunk\<rparr>)
         | Inr (Some header, r', chunk) \<Rightarrow>
             (case new_TarEntry_S header of
                Inl e \<Rightarrow> Inl e
              | Inr entry \<Rightarrow>
                  Inr (Some entry, \<lparr> entry_S = Some entry, p_reader = r', p_chunk = chunk \<rparr>)))"
    unfolding extract_S_def this1_def Let_def ..
  have c1: "p_chunk this1 = p_chunk this"
    by (cases "entry_S this") (simp_all add: this1_def split: prod.splits)
  obtain h r' chunk where g: "getHeader_S (p_reader this1) (p_chunk this) = Inr (h, r', chunk)"
    using assms(1) unfolding ex c1
    by (cases "getHeader_S (p_reader this1) (p_chunk this)") auto
  have h: "h = None"
    using assms(1) unfolding ex c1 g
    by (cases h; cases "new_TarEntry_S (the h)") simp_all
  then have t: "this' = this1\<lparr>p_reader := r', p_chunk := chunk\<rparr>"
    using assms(1) unfolding ex c1 g by simp
  obtain n c rr where rd: "rs_read (p_reader this1) (p_chunk this) = (n, c, rr)"
    by (cases "rs_read (p_reader this1) (p_chunk this)") auto
  from rs_read_cases [OF rd] show ?thesis
  proof (elim disjE conjE exE)
    assume "n = None" "rr = p_reader this1" "c = p_chunk this"
      "length (content (p_reader this1)) \<le> cursor (p_reader this1)"
    then show ?thesis
      using g assms(2) by (simp add: getHeader_S_def rd t)
  next
    fix m
    assume m: "n = Some (int m)" "m \<le> length (p_chunk this)"
      "c = take m (drop (cursor (p_reader this1)) (content (p_reader this1))) @ drop m (p_chunk this)"
      "m \<le> length (content (p_reader this1)) - cursor (p_reader this1)"
    have len: "length c = 512" using m(2,4) assms(2) by (simp add: m(3))
    have "chunk = c \<and> null_block c"
      using g h by (auto simp: getHeader_S_def rd m(1) null_block_def Let_def split: if_splits)
    then show ?thesis using len by (simp add: t)
  qed
qed

lemma extract_S_zero_block:
  "extract_S \<lparr>entry_S = None, p_reader = \<lparr>content = replicate 512 0 @ post, cursor = 0, grants = []\<rparr>,
      p_chunk = replicate 512 0\<rparr>
    = Inr (None, \<lparr>entry_S = None,
        p_reader = \<lparr>content = replicate 512 0 @ post, cursor = 512, grants = []\<rparr>,
        p_chunk = replicate 512 0\<rparr>)"
  using rs_read_block [of "replicate 512 0" "replicate 512 0" "[]" post]
  by (simp add: extract_S_def getHeader_S_def
      subarray_replicate decodeString_all_NUL parseInt8_empty getChecksum_zero_block
      js_strict_eq_def)

lemma drop_two_files_second:
  "drop 1024 two_files = file_block @ body_block @ replicate 1024 0"
  by (simp add: two_files_def length_example_blocks length_two_files)

lemma read_S_after_discard:
  "read_S file_entry_S \<lparr>content = two_files, cursor = 1024, grants = []\<rparr> (replicate 200 0)
     = (Some 100, take 100 file_block @ replicate 100 0, file_entry_S\<lparr>p_read_S := Some 100\<rparr>,
        \<lparr>content = two_files, cursor = 1124, grants = []\<rparr>)"
  by (simp add: read_S_def file_entry_S_fields js_sub_def js_le_def js_add_def new_Uint8Array_def
      Let_def rs_read_def length_two_files drop_two_files_second length_example_blocks)

lemma misaligned_block:
  "take 512 (drop 1018 two_files) = replicate 6 0 @ take 506 file_block"
proof -
  have "drop 1018 two_files = drop 506 body_block @ file_block @ body_block @ replicate 1024 0"
    by (simp add: two_files_def length_example_blocks length_two_files)
  moreover have "drop 506 body_block = replicate 6 0"
    by (simp add: body_block_def)
  ultimately show ?thesis by (simp add: length_example_blocks)
qed

lemma getHeader_S_misaligned:
  "getHeader_S \<lparr>content = two_files, cursor = 1018, grants = []\<rparr> file_block = Inl ChecksumError"
proof -
  let ?c = "replicate 6 0 @ take 506 file_block"
  have len: "length ?c = 512" by (simp add: length_example_blocks)
  have rd: "rs_read \<lparr>content = two_files, cursor = 1018, grants = []\<rparr> file_block
    = (Some 512, ?c, \<lparr>content = two_files, cursor = 1530, grants = []\<rparr>)"
    by (simp add: rs_read_def length_two_files length_example_blocks misaligned_block)
  have "getChecksum ?c = Some (INITIAL_CHECKSUM + int (sum_list (map unat (take 148 ?c)))
           + int (sum_list (map unat (take 356 (drop 156 ?c)))))"
    by (rule getChecksum_eq) (simp add: length_example_blocks)
  then have sum: "getChecksum ?c = Some 3141"
    by (simp add: example_blocks sum_list_replicate INITIAL_CHECKSUM_def)
  have fld: "parseInt8 (decodeString (subarray ?c 148 156)) = Some 0"
    by (simp add: example_blocks subarray_def parseInt8_eval)
  show ?thesis
    by (simp add: getHeader_S_def rd sum fld js_strict_eq_def INITIAL_CHECKSUM_def)
qed

section \<open>End of archive\<close>

text \<open>
  C6.  An archive that is one all-zero block of 512 bytes yields no entry and no error:
  the first \<^verbatim>\<open>extract()\<close> returns \<^verbatim>\<open>null\<close>, in the sequential version and in the
  seekable one however many bytes each read of the source delivers; the header check of
  the older version returns \<^verbatim>\<open>null\<close> on it too; and the block sum of the all-zero block
  is 256.
\<close>

theorem C6_zero_block_is_end_of_archive:
  "extract_A (new_Untar_A [replicate 512 0]) = Inr (None, \<lparr>entry_A = None, reader_A = []\<rparr>)
   \<and> (\<exists>r'. extract_S (new_Untar_S \<lparr>content = replicate 512 0, cursor = 0, grants = gs\<rparr>)
         = Inr (None, \<lparr>entry_S = None, p_reader = r', p_chunk = replicate 512 0\<rparr>))
   \<and> getHeader_B [replicate 512 0] = Inr (None, [])
   \<and> getChecksum (replicate 512 0) = Some 256"
proof (intro conjI)
  show "getHeader_B [replicate 512 0] = Inr (None, [])"
    by (simp add: getHeader_B_def reader_next_def field_def parseHeader_A_fields
      subarray_replicate older_decoder_all_NUL getChecksum_zero_block js_strict_eq_def)
  show "extract_A (new_Untar_A [replicate 512 0]) = Inr (None, \<lparr>entry_A = None, reader_A = []\<rparr>)"
    by (simp add: extract_A_def new_Untar_A_def getHeader_A_zero_block)
  show "\<exists>r'. extract_S (new_Untar_S \<lparr>content = replicate 512 0, cursor = 0, grants = gs\<rparr>)
         = Inr (None, \<lparr>entry_S = None, p_reader = r', p_chunk = replicate 512 0\<rparr>)"
    by (simp add: extract_S_def new_Untar_S_def getHeader_S_def rs_read_zeros
      subarray_replicate decodeString_all_NUL parseInt8_empty getChecksum_zero_block
      js_strict_eq_def)
  show "getChecksum (replicate 512 0) = Some 256"
    by (simp add: getChecksum_zero_block INITIAL_CHECKSUM_def)
qed

section \<open>Header validation\<close>

text \<open>
  C7.  A header block that passes the checksum check and whose magic does not begin with
  \<^verbatim>\<open>ustar\<close> must fail with the format error that carries the decoded magic.  The
  sequential version does so.  The seekable version, run on the same block, throws a
  \<^verbatim>\<open>ReferenceError\<close> instead: its message interpolates a variable \<^verbatim>\<open>magic\<close> that
  it never declares.
\<close>

theorem C7_seekable_format_error_is_ReferenceError:
  "getHeader_S \<lparr>content = posix_block, cursor = 0, grants = []\<rparr> (replicate 512 0)
     = Inl (ReferenceError ''magic is not defined'')
   \<and> getHeader_A [posix_block] = Inl (UnsupportedFormat (js ''posix''))"
  using rs_read_block [of posix_block "replicate 512 0" "[]" "[]"]
  by (simp add: getHeader_S_def length_example_blocks getHeader_A_posix
      getChecksum_example_blocks checksum_field_example_blocks magic_example_blocks
      indexOf_ustar js_strict_eq_def)

text \<open>
  C5.  Take a header block of 512 bytes that decodes (the checksum and the magic pass),
  and give one byte outside the checksum field, offsets 148 to 155, another value.  Then
  decoding the changed block fails with the checksum error, in the seekable version (the
  source holds the block at its cursor and fills the request) and in the sequential one.
  The exception the claim allows for never arises: the checksum field is as it was and the
  block sum has changed; and the new sum is not that of the zero block, since at least one
  of the first two bytes of the magic is left.
\<close>

theorem C5_changed_byte_fails_checksum:
  assumes "length block = 512" "length chunk = 512"
    "i < 512" "\<not> (148 \<le> i \<and> i < 156)" "b \<noteq> block ! i"
  shows "(getHeader_S \<lparr>content = pre @ block @ post, cursor = length pre, grants = []\<rparr> chunk
            = Inr (Some h, r', chunk')
          \<longrightarrow> getHeader_S \<lparr>content = pre @ block[i := b] @ post, cursor = length pre,
                 grants = []\<rparr> chunk = Inl ChecksumError)
       \<and> (getHeader_A (block # rest) = Inr (Some h, rest')
          \<longrightarrow> getHeader_A (block[i := b] # rest) = Inl ChecksumError)"
proof (intro conjI impI)
  assume ok: "getHeader_S \<lparr>content = pre @ block @ post, cursor = length pre, grants = []\<rparr> chunk
            = Inr (Some h, r', chunk')"
  have len: "512 \<le> length block" "259 \<le> length block" using assms(1) by simp_all
  from ok have pass: "js_strict_eq (parseInt8 (decodeString (subarray block 148 156)))
      (getChecksum block)"
    and magic: "indexOf (decodeString (subarray block 257 263)) (js ''ustar'') = 0"
    by (auto simp: getHeader_S_def rs_read_block [OF assms(1,2)] Let_def split: if_splits)
  have bytes: "block ! 257 \<noteq> 0 \<and> block ! 258 \<noteq> 0"
    by (rule magic_bytes [OF len(2) _ magic]) simp
  have upd: "length (block[i := b]) = 512" using assms(1) by simp
  show "getHeader_S \<lparr>content = pre @ block[i := b] @ post, cursor = length pre,
                 grants = []\<rparr> chunk = Inl ChecksumError"
    using checksum_check_after_change [OF len(1) assms(3,4,5) pass bytes]
    by (simp add: getHeader_S_def rs_read_block [OF upd assms(2)] Let_def)
next
  assume ok: "getHeader_A (block # rest) = Inr (Some h, rest')"
  have len: "512 \<le> length block" "259 \<le> length block" using assms(1) by simp_all
  from ok have pass: "js_strict_eq (parseInt8 (decodeString (subarray block 148 156)))
      (getChecksum block)"
    and magic: "indexOf (decodeString (subarray block 257 265)) (js ''ustar'') = 0"
    by (auto simp: getHeader_A_def reader_next_def field_def parseHeader_A_fields Let_def
        split: if_splits)
  have bytes: "block ! 257 \<noteq> 0 \<and> block ! 258 \<noteq> 0"
    by (rule magic_bytes [OF len(2) _ magic]) simp
  show "getHeader_A (block[i := b] # rest) = Inl ChecksumError"
    using checksum_check_after_change [OF len(1) assms(3,4,5) pass bytes]
    by (simp add: getHeader_A_def reader_next_def field_def parseHeader_A_fields Let_def)
qed

text \<open>The theorem at the header of a regular file, with the first byte of the name changed
  from \<^verbatim>\<open>a\<close> to \<^verbatim>\<open>b\<close>.\<close>

theorem C5_changed_byte_witness:
  "getHeader_S \<lparr>content = file_block, cursor = 0, grants = []\<rparr> (replicate 512 0)
     = Inr (Some (parseHeader_S file_block),
        \<lparr>content = file_block, cursor = 512, grants = []\<rparr>, file_block)
   \<and> getHeader_S \<lparr>content = file_block[0 := 0x62], cursor = 0, grants = []\<rparr>
        (replicate 512 0) = Inl ChecksumError
   \<and> getHeader_A [file_block] = Inr (Some (parseHeader_A file_block), [])
   \<and> getHeader_A [file_block[0 := 0x62]] = Inl ChecksumError"
proof -
  have b: "(0x62 :: byte) \<noteq> file_block ! 0"
    by (simp add: example_blocks)
  have a: "getHeader_A [file_block] = Inr (Some (parseHeader_A file_block), [])"
    by (rule getHeader_A_example_blocks)
  have s: "getHeader_S \<lparr>content = file_block, cursor = 0, grants = []\<rparr> (replicate 512 0)
     = Inr (Some (parseHeader_S file_block),
        \<lparr>content = file_block, cursor = 512, grants = []\<rparr>, file_block)"
    using getHeader_S_example_blocks [of "[]" "[]"] by simp
  show ?thesis
    using C5_changed_byte_fails_checksum [of file_block "replicate 512 0" 0 "0x62" "[]" "[]"
        "parseHeader_S file_block" "\<lparr>content = file_block, cursor = 512, grants = []\<rparr>"
        file_block "[]" "[]", OF length_example_blocks(1) _ _ _ b] a s
      C5_changed_byte_fails_checksum [of file_block "replicate 512 0" 0 "0x62" "[]" "[]"
        "parseHeader_A file_block" _ _ "[]" "[]", OF length_example_blocks(1) _ _ _ b]
    by simp
qed

section \<open>Metadata decoding\<close>

text \<open>
  C9.  Every octal field is to be read as text in base 8, in every version of the metadata
  decoder, with 0 for a field of NULs and 420 for \<^verbatim>\<open>0000644\<close>.  The versions that
  use \<^verbatim>\<open>decodeOctal\<close> do so (\<open>decodeOctal_digits\<close>, \<open>decodeOctal_all_NUL\<close>).  The
  older version parses \<^verbatim>\<open>decoder.decode(field)\<close> without the test for the empty text:
  on the header of a regular file, which it accepts and whose device numbers are NULs, it
  gives \<^verbatim>\<open>NaN\<close> for them where the other two give 0.  All three read the mode as 420.
\<close>

theorem C9_older_decoder_reads_NUL_field_as_NaN:
  "getHeader_B [file_block] = Inr (Some (parseHeader_A file_block), [])
   \<and> map_sum id majorNumber_B (parseMetadata_B (parseHeader_A file_block)) = Inr None
   \<and> map_sum id minorNumber_B (parseMetadata_B (parseHeader_A file_block)) = Inr None
   \<and> map_sum id mode_B (parseMetadata_B (parseHeader_A file_block)) = Inr (Some 420)
   \<and> map_sum id majorNumber (parseMetadata (parseHeader_A file_block)) = Inr (Some 0)
   \<and> map_sum id majorNumber (parseMetadata (parseHeader_S file_block)) = Inr (Some 0)
   \<and> map_sum id mode (parseMetadata (parseHeader_A file_block)) = Inr (Some 420)
   \<and> map_sum id mode (parseMetadata (parseHeader_S file_block)) = Inr (Some 420)"
proof -
  obtain b where b: "parseMetadata_B (parseHeader_A file_block) = Inr b"
    "mode_B b = parseInt8 (decode (subarray file_block 100 108))"
    "majorNumber_B b = parseInt8 (decode (subarray file_block 329 337))"
    "minorNumber_B b = parseInt8 (decode (subarray file_block 337 345))"
    using parseMetadata_B_numbers [of file_block] by blast
  obtain a where a: "parseMetadata (parseHeader_A file_block) = Inr a"
    "mode a = decodeOctal (subarray file_block 100 108)"
    "majorNumber a = decodeOctal (subarray file_block 329 337)"
    using parseMetadata_numbers_A [of file_block] by blast
  obtain s where s: "parseMetadata (parseHeader_S file_block) = Inr s"
    "mode s = decodeOctal (subarray file_block 100 108)"
    "majorNumber s = decodeOctal (subarray file_block 329 337)"
    using parseMetadata_numbers_S [of file_block] by blast
  have m644: "parseInt8 (decode (ascii ''0000644'' @ [0])) = Some 420"
    using older_decoder_digits [of "ascii ''0000644''" 1]
    by (simp add: ascii_def isOctalDigit_def octalValue_def)
  have d644: "decodeOctal (ascii ''0000644'' @ [0]) = Some 420"
    using decodeOctal_0000644 [of 1] by simp
  show ?thesis
    by (simp add: getHeader_B_file_block a b s file_block_fields m644 d644
        older_decoder_all_NUL decodeOctal_all_NUL)
qed

text \<open>
  C8, as the code has it.  For every header block whose type flag is neither NUL nor one
  of the digits \<^verbatim>\<open>0\<close> to \<^verbatim>\<open>7\<close>, the decoded kind is \<^verbatim>\<open>undefined\<close>: the lookup
  \<^verbatim>\<open>FILE_TYPES[NaN]\<close> finds nothing.  So the kind is never \<^verbatim>\<open>file\<close>, and it does
  not keep the flag.
\<close>

theorem C8_unknown_type_flag_is_undefined:
  assumes "156 < length block" "block ! 156 \<noteq> 0" "\<not> isOctalDigit (unat (block ! 156))"
  shows "(\<exists>m. parseMetadata (parseHeader_S block) = Inr m \<and> type_e m = None)
       \<and> (\<exists>m. parseMetadata (parseHeader_A block) = Inr m \<and> type_e m = None)"
proof -
  have flag: "subarray block 156 157 = [block ! 156]"
    using subarray_single [OF assms(1)] by simp
  have "FILE_TYPES (decodeOctal (subarray block 156 157)) = None"
    by (simp add: flag decodeOctal_no_digit [OF assms(2,3)] FILE_TYPES_NaN)
  then show ?thesis
    using parseMetadata_numbers_S [of block] parseMetadata_numbers_A [of block] by auto
qed

text \<open>The theorem at the header with type flag \<^verbatim>\<open>9\<close>.\<close>

theorem C8_unknown_type_flag_witness:
  "156 < length type9_block \<and> type9_block ! 156 \<noteq> 0
   \<and> \<not> isOctalDigit (unat (type9_block ! 156))
   \<and> (\<exists>m. parseMetadata (parseHeader_S type9_block) = Inr m \<and> type_e m = None)
   \<and> (\<exists>m. parseMetadata (parseHeader_A type9_block) = Inr m \<and> type_e m = None)"
  using C8_unknown_type_flag_is_undefined [of type9_block]
  by (simp add: length_example_blocks type_flag_example_blocks isOctalDigit_def)

text \<open>
  C8 as stated says that the kind of such an entry is an explicit unknown-type value that
  carries the raw digit.  The headers with the flags \<^verbatim>\<open>8\<close> and \<^verbatim>\<open>9\<close> are both
  accepted, and both decode to the same kind \<^verbatim>\<open>undefined\<close>, from which the digit
  cannot be read.
\<close>

theorem C8_unknown_digit_counterexample:
  "map_sum id fst (getHeader_A [type8_block]) = Inr (Some (parseHeader_A type8_block))
   \<and> map_sum id fst (getHeader_A [type9_block]) = Inr (Some (parseHeader_A type9_block))
   \<and> map_sum id type_e (parseMetadata (parseHeader_A type8_block)) = Inr None
   \<and> map_sum id type_e (parseMetadata (parseHeader_A type9_block)) = Inr None
   \<and> map_sum id type_e (parseMetadata (parseHeader_S type8_block)) = Inr None
   \<and> map_sum id type_e (parseMetadata (parseHeader_S type9_block)) = Inr None"
proof -
  have flags: "subarray type8_block 156 157 = [0x38]" "subarray type9_block 156 157 = [0x39]"
    using subarray_single [of 156 type8_block] subarray_single [of 156 type9_block]
    by (simp_all add: length_example_blocks type_flag_example_blocks)
  have kinds: "FILE_TYPES (decodeOctal [0x38]) = None" "FILE_TYPES (decodeOctal [0x39]) = None"
    by (simp_all add: decodeOctal_no_digit isOctalDigit_def FILE_TYPES_NaN)
  obtain a8 where a8: "parseMetadata (parseHeader_A type8_block) = Inr a8"
    "type_e a8 = FILE_TYPES (decodeOctal (subarray type8_block 156 157))"
    using parseMetadata_numbers_A [of type8_block] by blast
  obtain a9 where a9: "parseMetadata (parseHeader_A type9_block) = Inr a9"
    "type_e a9 = FILE_TYPES (decodeOctal (subarray type9_block 156 157))"
    using parseMetadata_numbers_A [of type9_block] by blast
  obtain s8 where s8: "parseMetadata (parseHeader_S type8_block) = Inr s8"
    "type_e s8 = FILE_TYPES (decodeOctal (subarray type8_block 156 157))"
    using parseMetadata_numbers_S [of type8_block] by blast
  obtain s9 where s9: "parseMetadata (parseHeader_S type9_block) = Inr s9"
    "type_e s9 = FILE_TYPES (decodeOctal (subarray type9_block 156 157))"
    using parseMetadata_numbers_S [of type9_block] by blast
  show ?thesis
    by (simp add: getHeader_A_example_blocks a8 a9 s8 s9 flags kinds)
qed

section \<open>The body of an entry, seekable version\<close>

text \<open>
  C2.  \<^verbatim>\<open>discard()\<close> is to seek forward by the padded size less the bytes consumed and
  to set the bytes consumed to the padded size, so that a second \<^verbatim>\<open>discard()\<close>, or the
  one \<^verbatim>\<open>extract()\<close> makes, moves the cursor no further.  The code seeks and assigns
  nothing.  On the archive of two members: the first \<^verbatim>\<open>extract()\<close> leaves the cursor
  at 512; a \<^verbatim>\<open>discard()\<close> by the caller moves it to 1024, the second header, and
  leaves \<^verbatim>\<open>_read\<close> at 0; a second \<^verbatim>\<open>discard()\<close> moves it on to 1536; and the
  \<^verbatim>\<open>extract()\<close> that follows the caller's \<^verbatim>\<open>discard()\<close> reads the body of the
  second member as a header and fails, where without the caller's \<^verbatim>\<open>discard()\<close> it
  returns the second member.
\<close>

theorem C2_second_discard_seeks_again:
  "extract_S (new_Untar_S \<lparr>content = two_files, cursor = 0, grants = []\<rparr>)
     = Inr (Some file_entry_S, \<lparr>entry_S = Some file_entry_S,
         p_reader = \<lparr>content = two_files, cursor = 512, grants = []\<rparr>, p_chunk = file_block\<rparr>)
   \<and> discard_S file_entry_S \<lparr>content = two_files, cursor = 512, grants = []\<rparr>
     = (file_entry_S, \<lparr>content = two_files, cursor = 1024, grants = []\<rparr>)
   \<and> p_read_S file_entry_S = Some 0
   \<and> discard_S file_entry_S \<lparr>content = two_files, cursor = 1024, grants = []\<rparr>
     = (file_entry_S, \<lparr>content = two_files, cursor = 1536, grants = []\<rparr>)
   \<and> extract_S \<lparr>entry_S = Some file_entry_S,
         p_reader = \<lparr>content = two_files, cursor = 1024, grants = []\<rparr>, p_chunk = file_block\<rparr>
     = Inl ChecksumError
   \<and> extract_S \<lparr>entry_S = Some file_entry_S,
         p_reader = \<lparr>content = two_files, cursor = 512, grants = []\<rparr>, p_chunk = file_block\<rparr>
     = Inr (Some file_entry_S, \<lparr>entry_S = Some file_entry_S,
         p_reader = \<lparr>content = two_files, cursor = 1536, grants = []\<rparr>, p_chunk = file_block\<rparr>)"
proof -
  have bad: "extract_S \<lparr>entry_S = Some file_entry_S,
         p_reader = \<lparr>content = two_files, cursor = 1024, grants = []\<rparr>, p_chunk = file_block\<rparr>
     = Inl ChecksumError"
    by (simp add: extract_S_def discard_S_file_entry getHeader_S_body)
  have good: "extract_S \<lparr>entry_S = Some file_entry_S,
         p_reader = \<lparr>content = two_files, cursor = 512, grants = []\<rparr>, p_chunk = file_block\<rparr>
     = Inr (Some file_entry_S, \<lparr>entry_S = Some file_entry_S,
         p_reader = \<lparr>content = two_files, cursor = 1536, grants = []\<rparr>, p_chunk = file_block\<rparr>)"
    by (simp add: extract_S_def discard_S_file_entry getHeader_S_second new_TarEntry_file_block)
  show ?thesis
    by (simp add: extract_S_first discard_S_file_entry file_entry_S_fields bad good)
qed

text \<open>
  What \<^verbatim>\<open>read\<close> does by itself when the buffer is longer than what is left of the
  declared size, \<open>sz - k > 0\<close>: it asks the source for that many bytes and no more.
  \<^verbatim>\<open>_read\<close> becomes the declared size; the cursor moves by the number returned, which
  is at most \<open>sz - k\<close>; the bytes at the front of the buffer are the ones the source had
  at its cursor; the buffer past \<open>sz - k\<close> is left alone; a source that has the bytes and
  fills requests returns exactly \<open>sz - k\<close> of them.  Only when the cursor stands \<open>k\<close>
  bytes into a body that starts at \<open>base\<close> does it follow that the cursor ends no further
  than \<open>base + sz\<close>; \<^verbatim>\<open>discard\<close> does not keep the two in step.
\<close>

lemma read_S_stops_at_declared_size:
  assumes "size_e entry = Some sz" "p_read_S entry = Some k"
    "0 < sz - k" "sz - k < int (length p)"
    "read_S entry r p = (n, p', entry', r')"
  shows "p_read_S entry' = Some sz
    \<and> cursor r' \<le> cursor r + nat (sz - k)
    \<and> (n = None \<or> (\<exists>m. n = Some (int m) \<and> m \<le> nat (sz - k) \<and> cursor r' = cursor r + m
          \<and> take m p' = take m (drop (cursor r) (content r))))
    \<and> drop (nat (sz - k)) p' = drop (nat (sz - k)) p
    \<and> (grants r = [] \<and> cursor r + nat (sz - k) \<le> length (content r)
        \<longrightarrow> n = Some (sz - k) \<and> cursor r' = cursor r + nat (sz - k)
          \<and> take (nat (sz - k)) p' = take (nat (sz - k)) (drop (cursor r) (content r)))
    \<and> (0 \<le> k \<and> cursor r = base + nat k \<longrightarrow> cursor r' \<le> base + nat sz)"
proof -
  define rem where "rem = nat (sz - k)"
  have rem: "0 < rem" "int rem = sz - k" "rem < length p"
    using assms(3,4) by (simp_all add: rem_def)
  obtain block' where rd: "rs_read r (replicate rem 0) = (n, block', r')"
    and p': "p' = block' @ drop (length block') p"
    and e': "entry' = entry\<lparr>p_read_S := Some sz\<rparr>"
    using assms
    by (auto simp: read_S_def js_sub_def js_le_def js_add_def new_Uint8Array_def rem_def
        Let_def split: prod.splits)
  have 1: "p_read_S entry' = Some sz" by (simp add: e')
  from rs_read_cases [OF rd] show ?thesis
  proof (elim disjE conjE exE)
    assume n: "n = None" "r' = r" "block' = replicate rem 0" "length (content r) \<le> cursor r"
    then have "\<not> cursor r + rem \<le> length (content r)" using rem(1) by arith
    moreover have "0 \<le> k \<and> cursor r = base + nat k \<longrightarrow> cursor r \<le> base + nat sz"
      using assms(3) by auto
    ultimately show ?thesis using n 1 by (simp add: p' flip: rem_def)
  next
    fix m
    assume m: "n = Some (int m)" "m \<le> length (replicate rem (0 :: byte))"
      "cursor r < length (content r)"
      "block' = take m (drop (cursor r) (content r)) @ drop m (replicate rem 0)"
      "m \<le> length (content r) - cursor r"
      "r' = r\<lparr>cursor := cursor r + m, grants := tl (grants r)\<rparr>"
      "grants r = [] \<longrightarrow> m = min (length (replicate rem (0 :: byte))) (length (content r) - cursor r)"
    have mr: "m \<le> rem" using m(2) by simp
    have lb: "length block' = rem" using mr m(5) by (simp add: m(4))
    have tk: "take m p' = take m (drop (cursor r) (content r))"
      using m(5) by (simp add: p' m(4))
    have cur: "cursor r' = cursor r + m" by (simp add: m(6))
    have full: "m = rem" if "grants r = []" "cursor r + rem \<le> length (content r)"
      using m(7) that by simp
    have 3: "\<exists>j. n = Some (int j) \<and> j \<le> rem \<and> cursor r' = cursor r + j
          \<and> take j p' = take j (drop (cursor r) (content r))"
      using m(1) mr cur tk by blast
    have 4: "drop rem p' = drop rem p" by (simp add: p' lb)
    have 5: "grants r = [] \<and> cursor r + rem \<le> length (content r)
        \<longrightarrow> n = Some (sz - k) \<and> cursor r' = cursor r + rem
          \<and> take rem p' = take rem (drop (cursor r) (content r))"
      using full m(1) cur tk rem(2) by auto
    have 6: "0 \<le> k \<and> cursor r = base + nat k \<longrightarrow> cursor r' \<le> base + nat sz"
      using cur mr assms(3) by (auto simp: rem_def)
    show ?thesis
      using 1 3 4 5 6 mr cur assms(3) unfolding rem_def by simp
  qed
qed

text \<open>
  C3.  A \<^verbatim>\<open>read\<close> into a buffer longer than what is left of the declared size is to
  return the remaining bytes of the body only, never bytes of the padding, of the
  following header or of the next entry.  On the archive of two members, after
  \<^verbatim>\<open>extract()\<close> and a \<^verbatim>\<open>discard()\<close> by the caller the cursor is at the second header,
  1024, and \<^verbatim>\<open>_read\<close> is still 0, since \<^verbatim>\<open>discard\<close> assigns nothing; a
  \<^verbatim>\<open>read\<close> into a buffer of 200 bytes then returns 100, and the 100 bytes are the
  first 100 of the second header.  Without the \<^verbatim>\<open>discard()\<close> the same \<^verbatim>\<open>read\<close>
  returns the 100 bytes of the body.
\<close>

theorem C3_read_after_discard_reads_next_header:
  "extract_S (new_Untar_S \<lparr>content = two_files, cursor = 0, grants = []\<rparr>)
     = Inr (Some file_entry_S, \<lparr>entry_S = Some file_entry_S,
         p_reader = \<lparr>content = two_files, cursor = 512, grants = []\<rparr>, p_chunk = file_block\<rparr>)
   \<and> discard_S file_entry_S \<lparr>content = two_files, cursor = 512, grants = []\<rparr>
     = (file_entry_S, \<lparr>content = two_files, cursor = 1024, grants = []\<rparr>)
   \<and> size_e file_entry_S = Some 100 \<and> p_read_S file_entry_S = Some 0
   \<and> read_S file_entry_S \<lparr>content = two_files, cursor = 1024, grants = []\<rparr> (replicate 200 0)
     = (Some 100, take 100 file_block @ replicate 100 0, file_entry_S\<lparr>p_read_S := Some 100\<rparr>,
        \<lparr>content = two_files, cursor = 1124, grants = []\<rparr>)
   \<and> take 100 (drop 1024 two_files) = take 100 file_block
   \<and> read_S file_entry_S \<lparr>content = two_files, cursor = 512, grants = []\<rparr> (replicate 200 0)
     = (Some 100, replicate 100 0x78 @ replicate 100 0, file_entry_S\<lparr>p_read_S := Some 100\<rparr>,
        \<lparr>content = two_files, cursor = 612, grants = []\<rparr>)"
proof -
  have hdr: "take 100 (drop 1024 two_files) = take 100 file_block"
    by (simp add: drop_two_files_second length_example_blocks)
  have seek: "discard_S file_entry_S \<lparr>content = two_files, cursor = 512, grants = []\<rparr>
     = (file_entry_S, \<lparr>content = two_files, cursor = 1024, grants = []\<rparr>)"
    by (simp add: discard_S_file_entry)
  show ?thesis
    by (intro conjI extract_S_first seek file_entry_S_fields
        read_S_after_discard hdr read_S_past_the_end)
qed

text \<open>
  What \<^verbatim>\<open>read\<close> does when the buffer is no longer than what is left of the declared
  size: it adds the length of the buffer to \<^verbatim>\<open>_read\<close>, before it reads and whatever
  the source then returns, and hands on the result of the source's \<^verbatim>\<open>read\<close>.  The two
  numbers agree when the source has the bytes and fills the request.
\<close>

lemma read_S_advances_by_buffer_length:
  assumes "size_e entry = Some sz" "p_read_S entry = Some k"
    "0 < sz - k" "int (length p) \<le> sz - k"
    "read_S entry r p = (n, p', entry', r')"
  shows "p_read_S entry' = Some (k + int (length p))
    \<and> rs_read r p = (n, p', r')
    \<and> (grants r = [] \<and> cursor r + length p \<le> length (content r)
          \<and> cursor r < length (content r)
        \<longrightarrow> n = Some (int (length p)))"
proof -
  have rd: "rs_read r p = (n, p', r')" and e': "entry' = entry\<lparr>p_read_S := Some (k + int (length p))\<rparr>"
    using assms
    by (auto simp: read_S_def js_sub_def js_le_def js_add_def Let_def split: prod.splits)
  have "n = Some (int (length p))"
    if "grants r = []" "cursor r + length p \<le> length (content r)" "cursor r < length (content r)"
    using rs_read_cases [OF rd] that by auto
  then show ?thesis using rd e' by simp
qed

text \<open>
  C4.  \<^verbatim>\<open>read\<close> into a buffer no longer than what is left of the declared size is to
  advance \<^verbatim>\<open>_read\<close> by the number of bytes the source read, which may be fewer than
  the length of the buffer.  The code advances it by the length of the buffer.  On the
  archive of two members, with a source that delivers 4 bytes into a buffer of 10: the
  \<^verbatim>\<open>read\<close> returns 4, the cursor is at 516 and \<^verbatim>\<open>_read\<close> is 10; the
  \<^verbatim>\<open>extract()\<close> that follows seeks by \<open>512 - 10\<close> to 1018, six bytes short of the
  second header, and throws the checksum error.  When the source fills the buffer the
  same calls return the second member.  A source that ends 40 bytes into the body leaves
  \<^verbatim>\<open>_read\<close> at 50 after a \<^verbatim>\<open>read\<close> into a buffer of 50 that returned 40.
\<close>

theorem C4_short_read_breaks_alignment:
  "new_TarEntry_S (parseHeader_S file_block) = Inr file_entry_S
   \<and> p_read_S file_entry_S = Some 0 \<and> size_e file_entry_S = Some 100
   \<and> read_S file_entry_S \<lparr>content = two_files, cursor = 512, grants = [4]\<rparr> (replicate 10 0)
     = (Some 4, replicate 4 0x78 @ replicate 6 0, file_entry_S\<lparr>p_read_S := Some 10\<rparr>,
        \<lparr>content = two_files, cursor = 516, grants = []\<rparr>)
   \<and> extract_S \<lparr>entry_S = Some (file_entry_S\<lparr>p_read_S := Some 10\<rparr>),
         p_reader = \<lparr>content = two_files, cursor = 516, grants = []\<rparr>, p_chunk = file_block\<rparr>
     = Inl ChecksumError
   \<and> read_S file_entry_S \<lparr>content = two_files, cursor = 512, grants = []\<rparr> (replicate 10 0)
     = (Some 10, replicate 10 0x78, file_entry_S\<lparr>p_read_S := Some 10\<rparr>,
        \<lparr>content = two_files, cursor = 522, grants = []\<rparr>)
   \<and> extract_S \<lparr>entry_S = Some (file_entry_S\<lparr>p_read_S := Some 10\<rparr>),
         p_reader = \<lparr>content = two_files, cursor = 522, grants = []\<rparr>, p_chunk = file_block\<rparr>
     = Inr (Some file_entry_S, \<lparr>entry_S = Some file_entry_S,
         p_reader = \<lparr>content = two_files, cursor = 1536, grants = []\<rparr>, p_chunk = file_block\<rparr>)
   \<and> read_S file_entry_S \<lparr>content = file_block @ replicate 40 0x78, cursor = 512, grants = []\<rparr>
       (replicate 50 0)
     = (Some 40, replicate 40 0x78 @ replicate 10 0, file_entry_S\<lparr>p_read_S := Some 50\<rparr>,
        \<lparr>content = file_block @ replicate 40 0x78, cursor = 552, grants = []\<rparr>)"
proof -
  have short: "read_S file_entry_S \<lparr>content = two_files, cursor = 512, grants = [4]\<rparr>
      (replicate 10 0)
     = (Some 4, replicate 4 0x78 @ replicate 6 0, file_entry_S\<lparr>p_read_S := Some 10\<rparr>,
        \<lparr>content = two_files, cursor = 516, grants = []\<rparr>)"
    by (simp add: read_S_def file_entry_S_fields js_sub_def js_le_def js_add_def Let_def
        rs_read_def length_two_files drop_two_files body_block_def)
  have full: "read_S file_entry_S \<lparr>content = two_files, cursor = 512, grants = []\<rparr>
      (replicate 10 0)
     = (Some 10, replicate 10 0x78, file_entry_S\<lparr>p_read_S := Some 10\<rparr>,
        \<lparr>content = two_files, cursor = 522, grants = []\<rparr>)"
    using rs_read_body [of 10]
    by (simp add: read_S_def file_entry_S_fields js_sub_def js_le_def js_add_def Let_def)
  have trunc: "read_S file_entry_S \<lparr>content = file_block @ replicate 40 0x78, cursor = 512,
        grants = []\<rparr> (replicate 50 0)
     = (Some 40, replicate 40 0x78 @ replicate 10 0, file_entry_S\<lparr>p_read_S := Some 50\<rparr>,
        \<lparr>content = file_block @ replicate 40 0x78, cursor = 552, grants = []\<rparr>)"
    by (simp add: read_S_def file_entry_S_fields js_sub_def js_le_def js_add_def Let_def
        rs_read_def length_example_blocks)
  have bad: "extract_S \<lparr>entry_S = Some (file_entry_S\<lparr>p_read_S := Some 10\<rparr>),
         p_reader = \<lparr>content = two_files, cursor = 516, grants = []\<rparr>, p_chunk = file_block\<rparr>
     = Inl ChecksumError"
    by (simp add: extract_S_def discard_S_after_read getHeader_S_misaligned)
  have good: "extract_S \<lparr>entry_S = Some (file_entry_S\<lparr>p_read_S := Some 10\<rparr>),
         p_reader = \<lparr>content = two_files, cursor = 522, grants = []\<rparr>, p_chunk = file_block\<rparr>
     = Inr (Some file_entry_S, \<lparr>entry_S = Some file_entry_S,
         p_reader = \<lparr>content = two_files, cursor = 1536, grants = []\<rparr>, p_chunk = file_block\<rparr>)"
    by (simp add: extract_S_def discard_S_after_read getHeader_S_second new_TarEntry_file_block)
  show ?thesis
    by (intro conjI new_TarEntry_file_block file_entry_S_fields short bad full good trunc)
qed

section \<open>The bytes taken from the source for one entry\<close>




section \<open>After the end of the archive\<close>

text \<open>
  C10, as the code has it.  The reader keeps no mark of the end: each \<^verbatim>\<open>extract()\<close>
  reads the next block.  When \<^verbatim>\<open>extract()\<close> has returned \<^verbatim>\<open>null\<close> and what is left of
  the source is nothing or zero blocks only (sequential version: every chunk still to
  come is the zero block; seekable version: every byte from the cursor on is zero, with a
  buffer of 512 bytes), every later call returns \<^verbatim>\<open>null\<close> as well.
\<close>

theorem C10_end_of_archive_stays_before_zeros:
  "(extract_A this = Inr (None, this')
      \<and> list_all (\<lambda>b. b = replicate 512 0) (reader_A this')
    \<longrightarrow> (\<exists>this''. extracts_A n this' = Inr (replicate n None, this'')))
   \<and> (extract_S that = Inr (None, that') \<and> length (p_chunk that) = 512
      \<and> list_all (\<lambda>b. b = 0) (drop (cursor (p_reader that')) (content (p_reader that')))
    \<longrightarrow> (\<exists>that''. extracts_S n that' = Inr (replicate n None, that'')))"
proof (intro conjI impI; elim conjE)
  assume "extract_A this = Inr (None, this')"
    and "list_all (\<lambda>b. b = replicate 512 0) (reader_A this')"
  then show "\<exists>this''. extracts_A n this' = Inr (replicate n None, this'')"
    by (intro extracts_A_zero_blocks extract_A_null_idle)
next
  assume e: "extract_S that = Inr (None, that')" and c: "length (p_chunk that) = 512"
    and z: "list_all (\<lambda>b. b = 0) (drop (cursor (p_reader that')) (content (p_reader that')))"
  from extract_S_null_state [OF e c] z
  show "\<exists>that''. extracts_S n that' = Inr (replicate n None, that'')"
    by (intro extracts_S_after_end) simp_all
qed

text \<open>The theorem at an archive of two zero blocks: \<^verbatim>\<open>null\<close> at the first block, and
  \<^verbatim>\<open>null\<close> three times more.\<close>

theorem C10_end_of_archive_witness:
  "extract_A (new_Untar_A [replicate 512 0, replicate 512 0])
     = Inr (None, \<lparr>entry_A = None, reader_A = [replicate 512 0]\<rparr>)
   \<and> list_all (\<lambda>b. b = replicate 512 0) (reader_A \<lparr>entry_A = None, reader_A = [replicate 512 0]\<rparr>)
   \<and> (\<exists>this''. extracts_A 3 \<lparr>entry_A = None, reader_A = [replicate 512 0]\<rparr>
         = Inr (replicate 3 None, this''))
   \<and> extract_S (new_Untar_S \<lparr>content = replicate 512 0 @ replicate 512 0, cursor = 0, grants = []\<rparr>)
     = Inr (None, \<lparr>entry_S = None,
         p_reader = \<lparr>content = replicate 512 0 @ replicate 512 0, cursor = 512, grants = []\<rparr>,
         p_chunk = replicate 512 0\<rparr>)
   \<and> (\<exists>that''. extracts_S 3 \<lparr>entry_S = None,
         p_reader = \<lparr>content = replicate 512 0 @ replicate 512 0, cursor = 512, grants = []\<rparr>,
         p_chunk = replicate 512 0\<rparr> = Inr (replicate 3 None, that''))"
proof -
  have a: "extract_A (new_Untar_A [replicate 512 0, replicate 512 0])
     = Inr (None, \<lparr>entry_A = None, reader_A = [replicate 512 0]\<rparr>)"
    by (simp add: extract_A_def new_Untar_A_def getHeader_A_zero_block)
  have s: "extract_S (new_Untar_S \<lparr>content = replicate 512 0 @ replicate 512 0, cursor = 0,
        grants = []\<rparr>)
     = Inr (None, \<lparr>entry_S = None,
         p_reader = \<lparr>content = replicate 512 0 @ replicate 512 0, cursor = 512, grants = []\<rparr>,
         p_chunk = replicate 512 0\<rparr>)"
    unfolding new_Untar_S_def by (rule extract_S_zero_block)
  note inst = C10_end_of_archive_stays_before_zeros [where n = 3
      and this = "new_Untar_A [replicate 512 0, replicate 512 0]"
      and this' = "\<lparr>entry_A = None, reader_A = [replicate 512 0]\<rparr>"
      and that = "new_Untar_S \<lparr>content = replicate 512 0 @ replicate 512 0, cursor = 0,
        grants = []\<rparr>"
      and that' = "\<lparr>entry_S = None,
         p_reader = \<lparr>content = replicate 512 0 @ replicate 512 0, cursor = 512, grants = []\<rparr>,
         p_chunk = replicate 512 0\<rparr>"]
  have z: "list_all (\<lambda>b. b = replicate 512 0) (reader_A \<lparr>entry_A = None, reader_A = [replicate 512 0]\<rparr>)"
    by simp
  have 1: "\<exists>this''. extracts_A 3 \<lparr>entry_A = None, reader_A = [replicate 512 0]\<rparr>
         = Inr (replicate 3 None, this'')"
    using inst [THEN conjunct1] a z by blast
  have 2: "\<exists>that''. extracts_S 3 \<lparr>entry_S = None,
         p_reader = \<lparr>content = replicate 512 0 @ replicate 512 0, cursor = 512, grants = []\<rparr>,
         p_chunk = replicate 512 0\<rparr> = Inr (replicate 3 None, that'')"
    using inst [THEN conjunct2] s by (simp add: new_Untar_S_def list_all_iff)
  show ?thesis by (intro conjI a z 1 s 2)
qed

text \<open>
  C10 as stated holds for every archive.  On an archive with a header after a zero block
  the first \<^verbatim>\<open>extract()\<close> returns \<^verbatim>\<open>null\<close> and the second returns the entry of that
  header, in both versions.
\<close>

theorem C10_entry_after_null_counterexample:
  "extracts_A 2 (new_Untar_A [replicate 512 0, file_block])
     = Inr ([None, Some file_entry_A], \<lparr>entry_A = Some file_entry_A, reader_A = []\<rparr>)
   \<and> extracts_S 2 (new_Untar_S \<lparr>content = replicate 512 0 @ file_block, cursor = 0, grants = []\<rparr>)
     = Inr ([None, Some file_entry_S], \<lparr>entry_S = Some file_entry_S,
         p_reader = \<lparr>content = replicate 512 0 @ file_block, cursor = 1024, grants = []\<rparr>,
         p_chunk = file_block\<rparr>)"
proof -
  have a1: "extract_A (new_Untar_A [replicate 512 0, file_block])
      = Inr (None, \<lparr>entry_A = None, reader_A = [file_block]\<rparr>)"
    by (simp add: extract_A_def new_Untar_A_def getHeader_A_zero_block)
  have a2: "extract_A \<lparr>entry_A = None, reader_A = [file_block]\<rparr>
      = Inr (Some file_entry_A, \<lparr>entry_A = Some file_entry_A, reader_A = []\<rparr>)"
    by (simp add: extract_A_def getHeader_A_example_blocks new_TarEntry_file_block)
  have s1: "extract_S (new_Untar_S \<lparr>content = replicate 512 0 @ file_block, cursor = 0, grants = []\<rparr>)
      = Inr (None, \<lparr>entry_S = None,
        p_reader = \<lparr>content = replicate 512 0 @ file_block, cursor = 512, grants = []\<rparr>,
        p_chunk = replicate 512 0\<rparr>)"
    unfolding new_Untar_S_def by (rule extract_S_zero_block)
  have s2: "extract_S \<lparr>entry_S = None,
        p_reader = \<lparr>content = replicate 512 0 @ file_block, cursor = 512, grants = []\<rparr>,
        p_chunk = replicate 512 0\<rparr>
      = Inr (Some file_entry_S, \<lparr>entry_S = Some file_entry_S,
         p_reader = \<lparr>content = replicate 512 0 @ file_block, cursor = 1024, grants = []\<rparr>,
         p_chunk = file_block\<rparr>)"
    using getHeader_S_example_blocks [of "replicate 512 0" "[]"]
    by (simp add: extract_S_def new_TarEntry_file_block)
  have two: "2 = Suc (Suc 0)" by simp
  show ?thesis
    unfolding two extracts_A.simps extracts_S.simps a1 s1 by (simp add: a2 s2)
qed

end
